theory Spec2Isabelle
  imports Complex_Main "HOL-Library.Log_Nat"
begin

section \<open>JavaScript numbers\<close>

text \<open>
  Every amount of \<^verbatim>\<open>Script.js\<close> is a JavaScript Number, an IEEE-754 binary64 value.
  A finite value is carried as the rational it denotes; the two infinities and NaN are
  separate constructors. The two zeros are one value here: the script never divides by a
  zero (its divisors are the literal 100 and a target that passed \<^verbatim>\<open>target <= 0\<close>), and
  comparison, \<^verbatim>\<open>Math.max\<close>, \<^verbatim>\<open>Math.round\<close> and \<^verbatim>\<open>JSON.stringify\<close> do not tell
  them apart.
\<close>

datatype number = NaN | PInf | NInf | Fin rat

text \<open>
  Rounding of an exact result to binary64, to nearest with ties to even. \<open>expo r\<close> is the
  binary exponent of \<open>r\<close> (the \<open>e\<close> with \<open>2\<^sup>e \<le> \<bar>r\<bar> < 2\<^sup>e\<^sup>+\<^sup>1\<close>), \<open>quantum r\<close> the spacing
  of the doubles around \<open>r\<close> (53 significant bits, least exponent \<open>-1022\<close>), and a result of
  magnitude \<open>2\<^sup>1\<^sup>0\<^sup>2\<^sup>4\<close> or more overflows to an infinity.
\<close>

definition expo :: "rat \<Rightarrow> int" where
  "expo r = (case quotient_of \<bar>r\<bar> of (p, d) \<Rightarrow>
     (let c = bitlen p - bitlen d in if 2 powi c \<le> \<bar>r\<bar> then c else c - 1))"

definition round_even :: "rat \<Rightarrow> int" where
  "round_even t = (let f = \<lfloor>t\<rfloor>; d = t - of_int f in
     if d < 1 / 2 then f else if 1 / 2 < d then f + 1 else if even f then f else f + 1)"

definition quantum :: "rat \<Rightarrow> rat" where
  "quantum r = 2 powi (max (expo r) (- 1022) - 52)"

definition overflow_threshold :: rat where
  "overflow_threshold = 179769313486231590772930519078902473361797697894230657273430081157732675805500963132708477322407536021120113879871393357658789768814416622492847430639474124377767893424865485276302219601246094119453082952085005768838150682342462881473913110540827237163350510684586298239947245938479716304835356329624224137216"

definition fl :: "rat \<Rightarrow> number" where
  "fl r = (let s = of_int (round_even (r / quantum r)) * quantum r in
     if overflow_threshold \<le> s then PInf
     else if s \<le> - overflow_threshold then NInf
     else Fin s)"

definition representable :: "rat \<Rightarrow> bool" where
  "representable r \<longleftrightarrow> fl r = Fin r"

fun js_add :: "number \<Rightarrow> number \<Rightarrow> number" where
  "js_add (Fin a) (Fin b) = fl (a + b)"
| "js_add NaN _ = NaN"
| "js_add _ NaN = NaN"
| "js_add PInf NInf = NaN"
| "js_add NInf PInf = NaN"
| "js_add PInf _ = PInf"
| "js_add _ PInf = PInf"
| "js_add NInf _ = NInf"
| "js_add _ NInf = NInf"

fun js_sub :: "number \<Rightarrow> number \<Rightarrow> number" where
  "js_sub (Fin a) (Fin b) = fl (a - b)"
| "js_sub NaN _ = NaN"
| "js_sub _ NaN = NaN"
| "js_sub PInf PInf = NaN"
| "js_sub NInf NInf = NaN"
| "js_sub PInf _ = PInf"
| "js_sub _ NInf = PInf"
| "js_sub NInf _ = NInf"
| "js_sub _ PInf = NInf"

definition signed_inf :: "bool \<Rightarrow> rat \<Rightarrow> number" where
  "signed_inf pos a =
     (if a = 0 then NaN else if (0 < a) = pos then PInf else NInf)"

fun js_mul :: "number \<Rightarrow> number \<Rightarrow> number" where
  "js_mul (Fin a) (Fin b) = fl (a * b)"
| "js_mul NaN _ = NaN"
| "js_mul _ NaN = NaN"
| "js_mul PInf (Fin b) = signed_inf True b"
| "js_mul NInf (Fin b) = signed_inf False b"
| "js_mul (Fin a) PInf = signed_inf True a"
| "js_mul (Fin a) NInf = signed_inf False a"
| "js_mul PInf PInf = PInf"
| "js_mul NInf NInf = PInf"
| "js_mul PInf NInf = NInf"
| "js_mul NInf PInf = NInf"

text \<open>Division; a zero divisor is \<open>+0\<close> (see above: no division of the script meets one).\<close>

fun js_div :: "number \<Rightarrow> number \<Rightarrow> number" where
  "js_div (Fin a) (Fin b) =
     (if b = 0 then (if a = 0 then NaN else if 0 < a then PInf else NInf)
      else fl (a / b))"
| "js_div NaN _ = NaN"
| "js_div _ NaN = NaN"
| "js_div (Fin a) PInf = Fin 0"
| "js_div (Fin a) NInf = Fin 0"
| "js_div PInf (Fin b) = (if b < 0 then NInf else PInf)"
| "js_div NInf (Fin b) = (if b < 0 then PInf else NInf)"
| "js_div _ _ = NaN"

text \<open>The relational operators: every comparison with NaN is false.\<close>

fun js_lt :: "number \<Rightarrow> number \<Rightarrow> bool" where
  "js_lt (Fin a) (Fin b) = (a < b)"
| "js_lt NaN _ = False"
| "js_lt _ NaN = False"
| "js_lt PInf _ = False"
| "js_lt _ NInf = False"
| "js_lt NInf _ = True"
| "js_lt _ PInf = True"

definition js_gt :: "number \<Rightarrow> number \<Rightarrow> bool" where
  "js_gt a b = js_lt b a"

definition js_le :: "number \<Rightarrow> number \<Rightarrow> bool" where
  "js_le a b \<longleftrightarrow> a \<noteq> NaN \<and> b \<noteq> NaN \<and> \<not> js_lt b a"

definition Math_max :: "number \<Rightarrow> number \<Rightarrow> number" where
  "Math_max a b = (if a = NaN \<or> b = NaN then NaN else if js_lt a b then b else a)"

definition Math_min :: "number \<Rightarrow> number \<Rightarrow> number" where
  "Math_min a b = (if a = NaN \<or> b = NaN then NaN else if js_lt b a then b else a)"

text \<open>
  \<^verbatim>\<open>Math.round\<close>: the nearest integer, a tie going to the one closer to \<open>+\<infinity>\<close>; the
  infinities and NaN are returned as they are.
\<close>

fun Math_round :: "number \<Rightarrow> number" where
  "Math_round (Fin v) = Fin (of_int \<lfloor>v + 1 / 2\<rfloor>)"
| "Math_round n = n"

fun isFinite :: "number \<Rightarrow> bool" where
  "isFinite (Fin v) = True"
| "isFinite n = False"

definition EPSILON :: number where
  "EPSILON = Fin (1 / 2 ^ 52)"

section \<open>Utilities\<close>

definition clamp :: "number \<Rightarrow> number \<Rightarrow> number \<Rightarrow> number" where
  "clamp n mn mx = Math_max mn (Math_min mx n)"

text \<open>
  \<^verbatim>\<open>safeNumber(value)\<close>; its argument here is \<^verbatim>\<open>Number(value)\<close>, the conversion of the
  text of an input field being the platform's.
\<close>

definition safeNumber :: "number \<Rightarrow> number" where
  "safeNumber n = (if isFinite n then n else NaN)"

definition round2 :: "number \<Rightarrow> number" where
  "round2 n = js_div (Math_round (js_mul (js_add n EPSILON) (Fin 100))) (Fin 100)"

text \<open>
  Rounding half away from zero, the rounding the specification names for the scaled
  value; \<open>round2\<close> above is compared with it.
\<close>

definition round_half_away :: "rat \<Rightarrow> int" where
  "round_half_away v = (if v < 0 then - \<lfloor>- v + 1 / 2\<rfloor> else \<lfloor>v + 1 / 2\<rfloor>)"

definition computeRemaining :: "number \<Rightarrow> number \<Rightarrow> number" where
  "computeRemaining target saved = round2 (Math_max (Fin 0) (js_sub target saved))"

definition computeProgressPct :: "number \<Rightarrow> number \<Rightarrow> number" where
  "computeProgressPct target saved =
     (if js_le target (Fin 0) then Fin 0
      else clamp (js_mul (js_div saved target) (Fin 100)) (Fin 0) (Fin 100))"

text \<open>
  \<^verbatim>\<open>String.prototype.trim\<close> on the characters a HOL string has: the white space and line
  terminators of ECMAScript up to U+00A0.
\<close>

definition is_space :: "char \<Rightarrow> bool" where
  "is_space c \<longleftrightarrow> of_char c \<in> {9, 10, 11, 12, 13, 32, 160 :: nat}"

definition trim :: "string \<Rightarrow> string" where
  "trim s = rev (dropWhile is_space (rev (dropWhile is_space s)))"

section \<open>State\<close>

record goal =
  goal_id :: string
  name :: string
  desc :: string
  target :: number
  saved :: number
  createdAt :: int

datatype currency = INR | USD

datatype theme = Dark | Light

record prefs =
  currency :: currency
  theme :: theme

definition default_prefs :: prefs where
  "default_prefs = \<lparr>currency = INR, theme = Dark\<rparr>"

record state =
  goals :: "goal list"
  prefs :: prefs

definition initial_state :: state where
  "initial_state = \<lparr>goals = [], prefs = default_prefs\<rparr>"

text \<open>
  What a handler does besides changing \<open>goals\<close> and \<open>prefs\<close>, in the order it does it:
  an \<^verbatim>\<open>alert\<close>, a message in the form's error line, a redraw of the page, a write of both
  slots to \<^verbatim>\<open>localStorage\<close>. The text of a message is its constructor; an amount shown in
  one is carried as the number given to \<^verbatim>\<open>formatMoney\<close>.
\<close>

datatype message =
  Only_add_up_to number
  | Valid_target_greater_than_0
  | Valid_savings_greater_than_0
  | Enter_a_goal_name

datatype effect = Alert message | Form_error message | Draw | Save

section \<open>Storage\<close>

text \<open>
  A parsed JSON text. An object is the list of its properties, one entry for each key.
  \<^verbatim>\<open>JSON.parse\<close> itself is the platform's and a parameter of \<open>loadFromStorage\<close>:
  \<open>None\<close> is its \<^verbatim>\<open>SyntaxError\<close>. \<^verbatim>\<open>localStorage.getItem\<close> gives \<^verbatim>\<open>null\<close> (\<open>None\<close>) or the
  stored text.
\<close>

datatype json =
  JNull
  | JBool bool
  | JNum number
  | JStr string
  | JArr "json list"
  | JObj "(string \<times> json) list"

text \<open>
  Right after \<^verbatim>\<open>goals = parsed\<close> the elements of \<open>goals\<close> are whatever the array held,
  so the state that \<open>loadFromStorage\<close> leaves carries them as JSON values.
\<close>

record loaded =
  loaded_goals :: "json list"
  loaded_prefs :: prefs

definition initial_loaded :: loaded where
  "initial_loaded = \<lparr>loaded_goals = [], loaded_prefs = default_prefs\<rparr>"

text \<open>\<^verbatim>\<open>parsedPrefs && typeof parsedPrefs === "object"\<close>: an object or an array.\<close>

definition truthy_object :: "json \<Rightarrow> bool" where
  "truthy_object j = (case j of JObj kvs \<Rightarrow> True | JArr xs \<Rightarrow> True | _ \<Rightarrow> False)"

text \<open>Reading a property: \<open>None\<close> is \<^verbatim>\<open>undefined\<close>.\<close>

definition property :: "json \<Rightarrow> string \<Rightarrow> json option" where
  "property j k = (case j of JObj kvs \<Rightarrow> map_of kvs k | _ \<Rightarrow> None)"

definition prefs_of :: "json \<Rightarrow> prefs" where
  "prefs_of parsedPrefs =
     \<lparr>currency = (if property parsedPrefs ''currency'' = Some (JStr ''USD'') then USD else INR),
      theme = (if property parsedPrefs ''theme'' = Some (JStr ''light'') then Light else Dark)\<rparr>"

text \<open>
  \<^verbatim>\<open>raw ? JSON.parse(raw) : dflt\<close>: \<^verbatim>\<open>null\<close> and the empty text are falsy; \<open>None\<close> is the
  exception of \<^verbatim>\<open>JSON.parse\<close>.
\<close>

definition parse_or :: "(string \<Rightarrow> json option) \<Rightarrow> string option \<Rightarrow> json \<Rightarrow> json option" where
  "parse_or parse raw dflt =
     (case raw of None \<Rightarrow> Some dflt | Some r \<Rightarrow> if r = [] then Some dflt else parse r)"

text \<open>
  The body of the \<^verbatim>\<open>try\<close>, \<open>None\<close> when one of the two \<^verbatim>\<open>JSON.parse\<close> calls throws:
  the first one before anything is assigned, the second one after \<open>goals\<close> may have been.
  \<^verbatim>\<open>Array.isArray(parsed)\<close> is the case \<open>JArr\<close>.
\<close>

definition load_try :: "(string \<Rightarrow> json option) \<Rightarrow> string option \<Rightarrow> string option \<Rightarrow>
    loaded \<Rightarrow> loaded option" where
  "load_try parse raw pr st =
     (case parse_or parse raw (JArr []) of
        None \<Rightarrow> None
      | Some parsed \<Rightarrow>
          (let st1 = (case parsed of JArr xs \<Rightarrow> st\<lparr>loaded_goals := xs\<rparr> | _ \<Rightarrow> st) in
           (case parse_or parse pr JNull of
              None \<Rightarrow> None
            | Some parsedPrefs \<Rightarrow>
                Some (if truthy_object parsedPrefs
                      then st1\<lparr>loaded_prefs := prefs_of parsedPrefs\<rparr> else st1))))"

definition loadFromStorage :: "(string \<Rightarrow> json option) \<Rightarrow> string option \<Rightarrow> string option \<Rightarrow>
    loaded \<Rightarrow> loaded" where
  "loadFromStorage parse raw pr st =
     (case load_try parse raw pr st of
        Some st' \<Rightarrow> st'
      | None \<Rightarrow> \<lparr>loaded_goals = [], loaded_prefs = default_prefs\<rparr>)"

text \<open>
  The shape of a Goal record in a stored array, after the type the script declares for
  \<open>goals\<close>: an object with the three texts and the three numbers.
\<close>

definition is_str :: "json option \<Rightarrow> bool" where
  "is_str v = (case v of Some (JStr s) \<Rightarrow> True | _ \<Rightarrow> False)"

definition is_num :: "json option \<Rightarrow> bool" where
  "is_num v = (case v of Some (JNum n) \<Rightarrow> True | _ \<Rightarrow> False)"

definition is_goal_record :: "json \<Rightarrow> bool" where
  "is_goal_record j \<longleftrightarrow>
     is_str (property j ''id'') \<and> is_str (property j ''name'') \<and> is_str (property j ''desc'')
     \<and> is_num (property j ''target'') \<and> is_num (property j ''saved'')
     \<and> is_num (property j ''createdAt'')"

text \<open>The shape of a Preferences record, after the type the script declares for \<open>prefs\<close>.\<close>

definition is_prefs_record :: "json \<Rightarrow> bool" where
  "is_prefs_record j \<longleftrightarrow>
     (property j ''currency'' = Some (JStr ''INR'') \<or> property j ''currency'' = Some (JStr ''USD''))
     \<and> (property j ''theme'' = Some (JStr ''dark'') \<or> property j ''theme'' = Some (JStr ''light''))"

text \<open>What \<^verbatim>\<open>JSON.parse\<close> gives on a few stored texts, for the examples below.\<close>

definition stored_texts :: "string \<Rightarrow> json option" where
  \<open>stored_texts s =
     (if s = ''[null]'' then Some (JArr [JNull])
      else if s = ''{"currency":"USD","theme":"blue"}''
        then Some (JObj [(''currency'', JStr ''USD''), (''theme'', JStr ''blue'')])
      else if s = ''{"currency":"USD","theme":"light"}''
        then Some (JObj [(''currency'', JStr ''USD''), (''theme'', JStr ''light'')])
      else if s = ''7'' then Some (JNum (Fin 7))
      else if s = ''[{"id":"g_1","name":"Bike","desc":"","target":10,"saved":0,"createdAt":1}]''
        then Some (JArr [JObj [(''id'', JStr ''g_1''), (''name'', JStr ''Bike''), (''desc'', JStr []),
               (''target'', JNum (Fin 10)), (''saved'', JNum (Fin 0)), (''createdAt'', JNum (Fin 1))]])
      else None)\<close>

section \<open>Rendering\<close>

text \<open>\<open>render()\<close> redraws the page from the state and ends with \<open>saveToStorage()\<close>.\<close>

definition render :: "state \<Rightarrow> state \<times> effect list" where
  "render st = (st, [Draw, Save])"

text \<open>The four locals of \<open>renderSummary\<close>, and the amounts it hands to \<^verbatim>\<open>formatMoney\<close>.\<close>

record summary =
  totalGoals :: nat
  totalRequired :: number
  totalSaved :: number
  totalRemaining :: number

definition aggregate :: "goal list \<Rightarrow> summary" where
  "aggregate gs =
     (let tr = foldl (\<lambda>acc g. js_add acc (target g)) (Fin 0) gs;
          ts = foldl (\<lambda>acc g. js_add acc (saved g)) (Fin 0) gs
      in \<lparr>totalGoals = length gs, totalRequired = tr, totalSaved = ts,
          totalRemaining = Math_max (Fin 0) (js_sub tr ts)\<rparr>)"

definition renderSummary :: "goal list \<Rightarrow> nat \<times> number \<times> number \<times> number" where
  "renderSummary gs =
     (let a = aggregate gs
      in (totalGoals a, round2 (totalRequired a), round2 (totalSaved a), round2 (totalRemaining a)))"

text \<open>
  The cards of \<open>renderGrid\<close>, newest first (\<^verbatim>\<open>Array.prototype.sort\<close> is stable), each
  with its remaining amount, its progress and whether it is achieved.
\<close>

definition sorted_goals :: "goal list \<Rightarrow> goal list" where
  "sorted_goals gs = sort_key (\<lambda>g. - createdAt g) gs"

definition achieved :: "goal \<Rightarrow> bool" where
  "achieved g \<longleftrightarrow>
     js_le (computeRemaining (target g) (saved g)) (Fin 0) \<and> js_gt (target g) (Fin 0)"

definition renderGrid :: "goal list \<Rightarrow> (goal \<times> number \<times> number \<times> bool) list" where
  "renderGrid gs =
     map (\<lambda>g. (g, computeRemaining (target g) (saved g),
               computeProgressPct (target g) (saved g), achieved g)) (sorted_goals gs)"

section \<open>Actions\<close>

text \<open>\<open>uid()\<close> and \<open>Date.now()\<close> are not functions of the state: their results are arguments.\<close>

definition addGoal :: "string \<Rightarrow> int \<Rightarrow> string \<Rightarrow> string \<Rightarrow> number \<Rightarrow> state \<Rightarrow> state \<times> effect list" where
  "addGoal uid now nm ds tg st =
     (let newGoal = \<lparr>goal_id = uid, name = trim nm, desc = trim ds, target = round2 tg,
                     saved = Fin 0, createdAt = now\<rparr>
      in render (st\<lparr>goals := goals st @ [newGoal]\<rparr>))"

definition deleteGoal :: "string \<Rightarrow> state \<Rightarrow> state \<times> effect list" where
  "deleteGoal i st = render (st\<lparr>goals := filter (\<lambda>g. goal_id g \<noteq> i) (goals st)\<rparr>)"

text \<open>
  \<^verbatim>\<open>goals.find(...)\<close> gives the first goal with the id, and the assignments to its fields
  change that element of the array.
\<close>

fun update_first :: "('a \<Rightarrow> bool) \<Rightarrow> ('a \<Rightarrow> 'a) \<Rightarrow> 'a list \<Rightarrow> 'a list" where
  "update_first P f [] = []"
| "update_first P f (x # xs) = (if P x then f x # xs else x # update_first P f xs)"

definition addSavings :: "string \<Rightarrow> number \<Rightarrow> state \<Rightarrow> state \<times> effect list" where
  "addSavings i amountToAdd st =
     (case find (\<lambda>g. goal_id g = i) (goals st) of
        None \<Rightarrow> (st, [])
      | Some goal \<Rightarrow>
          (let remaining = computeRemaining (target goal) (saved goal);
               amt = round2 amountToAdd
           in if \<not> js_gt amt (Fin 0) then (st, [])
              else if js_gt amt remaining then (st, [Alert (Only_add_up_to remaining)])
              else render (st\<lparr>goals := update_first (\<lambda>g. goal_id g = i)
                     (\<lambda>g. g\<lparr>saved := round2 (js_add (saved g) amt)\<rparr>) (goals st)\<rparr>)))"

text \<open>
  \<open>editTarget\<close>: \<open>input\<close> is the answer to the \<^verbatim>\<open>prompt\<close>, \<open>None\<close> when it was cancelled,
  else \<^verbatim>\<open>Number(input)\<close> of the text typed.
\<close>

definition editTarget :: "string \<Rightarrow> number option \<Rightarrow> state \<Rightarrow> state \<times> effect list" where
  "editTarget i input st =
     (case find (\<lambda>g. goal_id g = i) (goals st) of
        None \<Rightarrow> (st, [])
      | Some goal \<Rightarrow>
          (case input of
             None \<Rightarrow> (st, [])
           | Some n \<Rightarrow>
               (let newTarget = safeNumber n
                in if \<not> isFinite newTarget \<or> js_le newTarget (Fin 0)
                   then (st, [Alert Valid_target_greater_than_0])
                   else render (st\<lparr>goals := update_first (\<lambda>g. goal_id g = i)
                          (\<lambda>g. let g1 = g\<lparr>target := round2 newTarget\<rparr>
                               in if js_gt (saved g1) (target g1) then g1\<lparr>saved := target g1\<rparr> else g1)
                          (goals st)\<rparr>))))"

text \<open>\<open>resetAll\<close>: \<open>ok\<close> is the answer to the \<^verbatim>\<open>confirm\<close>.\<close>

definition resetAll :: "bool \<Rightarrow> state \<Rightarrow> state \<times> effect list" where
  "resetAll ok st =
     (if \<not> ok then (st, [])
      else (let (st', es) = render \<lparr>goals = [], prefs = default_prefs\<rparr> in (st', Save # es)))"

section \<open>Event listeners\<close>

text \<open>
  The submit handler of the form: \<open>value\<close> is \<^verbatim>\<open>Number(goalTargetEl.value)\<close>.
\<close>

definition addGoalForm_submit ::
    "string \<Rightarrow> int \<Rightarrow> string \<Rightarrow> string \<Rightarrow> number \<Rightarrow> state \<Rightarrow> state \<times> effect list" where
  "addGoalForm_submit uid now nm ds v st =
     (let tg = safeNumber v
      in if trim nm = [] then (st, [Form_error Enter_a_goal_name])
         else if \<not> isFinite tg \<or> js_le tg (Fin 0) then (st, [Form_error Valid_target_greater_than_0])
         else addGoal uid now nm ds tg st)"

definition currencyToggle_click :: "state \<Rightarrow> state \<times> effect list" where
  "currencyToggle_click st =
     render (st\<lparr>prefs := (prefs st)\<lparr>currency := (if currency (prefs st) = INR then USD else INR)\<rparr>\<rparr>)"

definition themeToggle_click :: "state \<Rightarrow> state \<times> effect list" where
  "themeToggle_click st =
     render (st\<lparr>prefs := (prefs st)\<lparr>theme := (if theme (prefs st) = Dark then Light else Dark)\<rparr>\<rparr>)"

text \<open>The submit handler of a card's form: \<open>value\<close> is \<^verbatim>\<open>Number(input.value)\<close>.\<close>

definition addSavingsForm_submit :: "string \<Rightarrow> number \<Rightarrow> state \<Rightarrow> state \<times> effect list" where
  "addSavingsForm_submit i v st =
     (let amt = safeNumber v
      in if \<not> isFinite amt \<or> js_le amt (Fin 0) then (st, [Alert Valid_savings_greater_than_0])
         else addSavings i amt st)"

text \<open>
  A run of the page, one event for each thing the user can do: submit the form of a new
  goal, submit the form of a card, answer the prompt of the edit button, confirm the
  delete button, click a toggle, answer the confirm of the reset button.
\<close>

datatype event =
  Create string int string string number
  | Add_savings string number
  | Edit_target string "number option"
  | Delete string
  | Toggle_currency
  | Toggle_theme
  | Reset_all bool

fun handle :: "state \<Rightarrow> event \<Rightarrow> state" where
  "handle st (Create uid now nm ds v) = fst (addGoalForm_submit uid now nm ds v st)"
| "handle st (Add_savings i v) = fst (addSavingsForm_submit i v st)"
| "handle st (Edit_target i input) = fst (editTarget i input st)"
| "handle st (Delete i) = fst (deleteGoal i st)"
| "handle st Toggle_currency = fst (currencyToggle_click st)"
| "handle st Toggle_theme = fst (themeToggle_click st)"
| "handle st (Reset_all ok) = fst (resetAll ok st)"

section \<open>Startup\<close>

text \<open>
  \<open>init()\<close> is \<open>loadFromStorage()\<close>, then \<open>render()\<close> on what was loaded. The elements of
  the loaded list are parsed JSON, Goal records or not, and of \<open>render\<close> on them what is
  modelled is whether it throws; nothing catches what it throws.

  Reading a property of \<^verbatim>\<open>null\<close> throws a TypeError. Of an object the read gives the
  property, \<^verbatim>\<open>undefined\<close> (\<open>None\<close>) when it has none of the name; of a number, a text, a
  boolean and an array it gives \<^verbatim>\<open>undefined\<close> for each of the six names the script reads.
\<close>

datatype error = TypeError

definition read_property :: "json \<Rightarrow> string \<Rightarrow> error + json option" where
  "read_property j k = (case j of JNull \<Rightarrow> Inl TypeError | _ \<Rightarrow> Inr (property j k))"

text \<open>
  The operators \<^verbatim>\<open>+\<close>, \<^verbatim>\<open>-\<close>, \<^verbatim>\<open><=\<close> and \<^verbatim>\<open>>\<close>, \<^verbatim>\<open>Number(...)\<close>, \<^verbatim>\<open>String(...)\<close> and the
  assignment to \<^verbatim>\<open>dataset.id\<close> convert their operand to a primitive value. \<^verbatim>\<open>undefined\<close>,
  \<^verbatim>\<open>null\<close>, a boolean, a number and a text are primitive. A parsed object is converted by
  \<^verbatim>\<open>Object.prototype.toString\<close>, unless it has a property \<^verbatim>\<open>toString\<close> of its own, which is
  parsed data and no function: then the conversion throws a TypeError. An array is
  converted by joining the conversions of its elements.
\<close>

fun converts :: "json \<Rightarrow> bool" where
  "converts (JObj kvs) \<longleftrightarrow> property (JObj kvs) ''toString'' = None"
| "converts (JArr xs) \<longleftrightarrow> list_all converts xs"
| "converts _ \<longleftrightarrow> True"

definition to_primitive :: "json option \<Rightarrow> error + unit" where
  "to_primitive v =
     (case v of None \<Rightarrow> Inr () | Some j \<Rightarrow> if converts j then Inr () else Inl TypeError)"

definition read_converted :: "json \<Rightarrow> string \<Rightarrow> error + unit" where
  "read_converted g k = (case read_property g k of Inl e \<Rightarrow> Inl e | Inr v \<Rightarrow> to_primitive v)"

fun for_each :: "('a \<Rightarrow> error + unit) \<Rightarrow> 'a list \<Rightarrow> error + unit" where
  "for_each f [] = Inr ()"
| "for_each f (x # xs) = (case f x of Inl e \<Rightarrow> Inl e | Inr u \<Rightarrow> for_each f xs)"

text \<open>
  \<open>renderSummary\<close> on the loaded list: the first \<^verbatim>\<open>reduce\<close> reads \<^verbatim>\<open>g.target\<close> of every
  element and adds it to the sum, the second one does the same with \<^verbatim>\<open>g.saved\<close>; the sums
  are primitive, and rounding and formatting them does not throw.
\<close>

definition renderSummary_loaded :: "json list \<Rightarrow> error + unit" where
  "renderSummary_loaded gs =
     (case for_each (\<lambda>g. read_converted g ''target'') gs of
        Inl e \<Rightarrow> Inl e
      | Inr u \<Rightarrow> for_each (\<lambda>g. read_converted g ''saved'') gs)"

text \<open>
  \<open>renderGrid\<close> on the loaded list. The comparison of the sort subtracts the \<^verbatim>\<open>createdAt\<close> of
  two elements; a list of fewer than two elements is sorted with no comparison, and in a
  longer one every element is compared. A card subtracts \<^verbatim>\<open>g.saved\<close> from \<^verbatim>\<open>g.target\<close> in
  \<open>computeRemaining\<close>, assigns \<^verbatim>\<open>g.id\<close> to \<^verbatim>\<open>dataset.id\<close> and hands \<^verbatim>\<open>g.name\<close> and \<^verbatim>\<open>g.desc\<close> to
  \<^verbatim>\<open>String(...)\<close> in \<open>escapeHtml\<close> (a \<^verbatim>\<open>desc\<close> that is falsy is primitive). The cards are
  made in the sorted order; whether one of them throws does not depend on the order, and
  they are gone through in the stored one.
\<close>

definition card_loaded :: "json \<Rightarrow> error + unit" where
  "card_loaded g =
     for_each (read_converted g) [''target'', ''saved'', ''id'', ''name'', ''desc'']"

definition renderGrid_loaded :: "json list \<Rightarrow> error + unit" where
  "renderGrid_loaded gs =
     (if gs = [] then Inr ()
      else (case (if length gs < 2 then Inr ()
                  else for_each (\<lambda>g. read_converted g ''createdAt'') gs) of
              Inl e \<Rightarrow> Inl e
            | Inr u \<Rightarrow> for_each card_loaded gs))"

text \<open>
  \<open>render()\<close> after the load: \<open>applyPrefsToUI\<close> and \<open>saveToStorage\<close> do not depend on the
  shape of the goals (\<^verbatim>\<open>JSON.stringify\<close> writes back what \<^verbatim>\<open>JSON.parse\<close> gave).
\<close>

definition render_loaded :: "loaded \<Rightarrow> error + loaded" where
  "render_loaded st =
     (case renderSummary_loaded (loaded_goals st) of
        Inl e \<Rightarrow> Inl e
      | Inr u \<Rightarrow>
          (case renderGrid_loaded (loaded_goals st) of
             Inl e \<Rightarrow> Inl e
           | Inr u \<Rightarrow> Inr st))"

definition init :: "(string \<Rightarrow> json option) \<Rightarrow> string option \<Rightarrow> string option \<Rightarrow> error + loaded" where
  "init parse raw pr = render_loaded (loadFromStorage parse raw pr initial_loaded)"

text \<open>The elements of a parsed array; a value that is not an array has none.\<close>

definition elements :: "json \<Rightarrow> json list" where
  "elements j = (case j of JArr xs \<Rightarrow> xs | _ \<Rightarrow> [])"

section \<open>Amounts in hundredths\<close>

text \<open>
  \<open>cents k\<close> is the Number for \<open>k\<close> hundredths, the double nearest to \<open>k / 100\<close>. A goal is in
  hundredths when its saved amount and its target are, with \<open>0 \<le> saved \<le> target\<close> as
  integers and a target of at most \<open>10\<^sup>1\<^sup>4 + 4\<close> hundredths (what a trillion can round to).
  An event is small when the amount it carries, if finite, is at most a trillion in
  magnitude; an amount that is not finite is refused by every handler.
\<close>

definition cents :: "int \<Rightarrow> number" where
  "cents k = fl (of_int k / 100)"

definition cents_goal :: "goal \<Rightarrow> bool" where
  "cents_goal g \<longleftrightarrow>
     (\<exists>S T. 0 \<le> S \<and> S \<le> T \<and> T \<le> 10 ^ 14 + 4 \<and> target g = cents T \<and> saved g = cents S)"

fun small :: "number \<Rightarrow> bool" where
  "small (Fin x) = (\<bar>x\<bar> \<le> 10 ^ 12)"
| "small n = True"

fun small_event :: "event \<Rightarrow> bool" where
  "small_event (Create uid now nm ds v) = small v"
| "small_event (Add_savings i v) = small v"
| "small_event (Edit_target i (Some v)) = small v"
| "small_event ev = True"

definition within_target :: "goal \<Rightarrow> bool" where
  "within_target g \<longleftrightarrow> js_le (Fin 0) (saved g) \<and> js_le (saved g) (target g)"

section \<open>A store with one goal\<close>

text \<open>A goal of 10 with 5 saved, for the examples below.\<close>

definition bike :: goal where
  "bike = \<lparr>goal_id = ''g_1'', name = ''Bike'', desc = [], target = Fin 10, saved = Fin 5, createdAt = 1\<rparr>"

definition one_goal :: state where
  "one_goal = \<lparr>goals = [bike], prefs = default_prefs\<rparr>"

section \<open>Properties of the rounding\<close>


lemma quotient_of_abs_pos:
  assumes "r \<noteq> 0" "quotient_of \<bar>r\<bar> = (p, d)"
  shows "0 < p" "0 < d" "\<bar>r\<bar> = of_int p / of_int d"
proof -
  show d: "0 < d" using assms(2) by (rule quotient_of_denom_pos)
  show eq: "\<bar>r\<bar> = of_int p / of_int d" using assms(2) by (rule quotient_of_div)
  have "0 < \<bar>r\<bar>" using assms(1) by simp
  then have "0 < (of_int p :: rat) / of_int d" using eq by simp
  then show "0 < p" using d by (simp add: zero_less_divide_iff)
qed

lemma expo_bounds:
  assumes "r \<noteq> 0"
  shows "2 powi (expo r) \<le> \<bar>r\<bar>" and "\<bar>r\<bar> < 2 powi (expo r + 1)"
proof -
  obtain p d where q: "quotient_of \<bar>r\<bar> = (p, d)" by (cases "quotient_of \<bar>r\<bar>")
  note pd = quotient_of_abs_pos[OF assms q]
  define c where "c = bitlen p - bitlen d"
  have bp: "2 ^ nat (bitlen p - 1) \<le> p" "p < 2 ^ nat (bitlen p)"
    using bitlen_bounds[OF pd(1)] by auto
  have bd: "2 ^ nat (bitlen d - 1) \<le> d" "d < 2 ^ nat (bitlen d)"
    using bitlen_bounds[OF pd(2)] by auto
  have bp1: "1 \<le> bitlen p" using pd(1) by (simp add: bitlen_alt_def)
  have bd1: "1 \<le> bitlen d" using pd(2) by (simp add: bitlen_alt_def)
  have P1: "(2::rat) powi (bitlen p - 1) \<le> of_int p"
  proof -
    have "(of_int (2 ^ nat (bitlen p - 1)) :: rat) \<le> of_int p" using bp(1) by (simp only: of_int_le_iff)
    then show ?thesis using bp1 by (simp add: power_int_def)
  qed
  have P2: "(of_int p :: rat) < 2 powi (bitlen p)"
  proof -
    have "(of_int p :: rat) < of_int (2 ^ nat (bitlen p))" using bp(2) by (simp only: of_int_less_iff)
    then show ?thesis using bp1 by (simp add: power_int_def)
  qed
  have D1: "(2::rat) powi (bitlen d - 1) \<le> of_int d"
  proof -
    have "(of_int (2 ^ nat (bitlen d - 1)) :: rat) \<le> of_int d" using bd(1) by (simp only: of_int_le_iff)
    then show ?thesis using bd1 by (simp add: power_int_def)
  qed
  have D2: "(of_int d :: rat) < 2 powi (bitlen d)"
  proof -
    have "(of_int d :: rat) < of_int (2 ^ nat (bitlen d))" using bd(2) by (simp only: of_int_less_iff)
    then show ?thesis using bd1 by (simp add: power_int_def)
  qed
  have dpos: "(0::rat) < of_int d" using pd(2) by simp
  have upper: "\<bar>r\<bar> < 2 powi (c + 1)"
  proof -
    have "of_int p < (2::rat) powi (bitlen p)" by (rule P2)
    also have "\<dots> = 2 powi (c + 1) * 2 powi (bitlen d - 1)"
      by (simp add: c_def power_int_add[symmetric])
    also have "\<dots> \<le> 2 powi (c + 1) * of_int d"
      using D1 by (intro mult_left_mono) simp_all
    finally show ?thesis using dpos by (simp add: pd(3) pos_divide_less_eq)
  qed
  have lower: "2 powi (c - 1) < \<bar>r\<bar>"
  proof -
    have "2 powi (c - 1) * of_int d < (2::rat) powi (c - 1) * 2 powi (bitlen d)"
      using D2 by (intro mult_strict_left_mono) simp_all
    also have "\<dots> = 2 powi (bitlen p - 1)"
      by (simp add: c_def power_int_add[symmetric])
    also have "\<dots> \<le> of_int p" by (rule P1)
    finally show ?thesis using dpos by (simp add: pd(3) pos_less_divide_eq)
  qed
  have e: "expo r = (if 2 powi c \<le> \<bar>r\<bar> then c else c - 1)"
    by (simp add: expo_def q c_def Let_def)
  show "2 powi (expo r) \<le> \<bar>r\<bar>" using lower by (simp add: e)
  show "\<bar>r\<bar> < 2 powi (expo r + 1)" using upper by (auto simp add: e not_le)
qed

lemma pow2_less_imp:
  assumes "(2::rat) powi a < 2 powi b"
  shows "a < b"
proof (rule ccontr)
  assume "\<not> a < b"
  then have "b \<le> a" by simp
  then have "(2::rat) powi b \<le> 2 powi a" by (intro power_int_increasing) simp_all
  then show False using assms by simp
qed

lemma expo_unique:
  assumes "2 powi e \<le> \<bar>r\<bar>" "\<bar>r\<bar> < 2 powi (e + 1)"
  shows "expo r = e"
proof -
  have r: "r \<noteq> 0"
  proof
    assume "r = 0"
    then have "2 powi e \<le> (0::rat)" using assms(1) by simp
    moreover have "(0::rat) < 2 powi e" by simp
    ultimately show False by linarith
  qed
  note b = expo_bounds[OF r]
  have "(2::rat) powi e < 2 powi (expo r + 1)" using assms(1) b(2) by simp
  then have 1: "e < expo r + 1" by (rule pow2_less_imp)
  have "(2::rat) powi (expo r) < 2 powi (e + 1)" using assms(2) b(1) by simp
  then have 2: "expo r < e + 1" by (rule pow2_less_imp)
  show ?thesis using 1 2 by simp
qed

lemma round_even_err: "\<bar>of_int (round_even t) - t\<bar> \<le> 1 / 2"
proof -
  have "of_int \<lfloor>t\<rfloor> \<le> t" "t < of_int \<lfloor>t\<rfloor> + 1" by linarith+
  then show ?thesis
    by (auto simp add: round_even_def Let_def abs_le_iff)
qed

lemma overflow_threshold_eq: "overflow_threshold = 2 ^ 1024"
  by (simp add: overflow_threshold_def)

lemma fl_eqI:
  assumes "2 powi e \<le> \<bar>r\<bar>" "\<bar>r\<bar> < 2 powi (e + 1)" "- 1022 \<le> e"
    and "s = of_int (round_even (r / 2 powi (e - 52))) * 2 powi (e - 52)"
    and "\<bar>s\<bar> < overflow_threshold"
  shows "fl r = Fin s"
proof -
  have "expo r = e" using assms(1,2) by (rule expo_unique)
  then have "quantum r = 2 powi (e - 52)" using assms(3) by (simp add: quantum_def max_def)
  then show ?thesis using assms(4,5) by (auto simp add: fl_def Let_def)
qed

lemma fl_zero: "fl 0 = Fin 0"
  by (simp add: fl_def round_even_def overflow_threshold_def)

lemma floor_rat_numeral_div:
  "\<lfloor>(numeral a :: rat) / numeral b\<rfloor> = numeral a div numeral b"
  using floor_divide_of_int_eq[of "numeral a" "numeral b", where ?'a = rat] by simp

lemma floor_rat_neg_numeral_div:
  "\<lfloor>- ((numeral a :: rat) / numeral b)\<rfloor> = - numeral a div numeral b"
  using floor_divide_of_int_eq[of "- numeral a" "numeral b", where ?'a = rat] by simp

lemmas fl_eval = power_int_minus_divide round_even_def overflow_threshold_def Let_def
  floor_rat_numeral_div floor_rat_neg_numeral_div


lemma quantum_pos: "0 < quantum r"
  by (simp add: quantum_def)

lemma quantum_le:
  assumes "r \<noteq> 0"
  shows "quantum r \<le> \<bar>r\<bar> / 2 ^ 52 + 1 / 2 ^ 1074"
proof (cases "- 1022 \<le> expo r")
  case True
  then have "quantum r = 2 powi (expo r) / 2 ^ 52"
    by (simp add: quantum_def max_def power_int_diff)
  also have "\<dots> \<le> \<bar>r\<bar> / 2 ^ 52"
    using expo_bounds(1)[OF assms] by (simp add: divide_right_mono)
  finally show ?thesis by simp
next
  case False
  then have "quantum r = 1 / 2 ^ 1074"
    by (simp add: quantum_def max_def power_int_minus_divide)
  then show ?thesis by simp
qed

lemma fl_round_err:
  "\<bar>of_int (round_even (r / quantum r)) * quantum r - r\<bar> \<le> quantum r / 2"
proof -
  have q: "0 < quantum r" by (rule quantum_pos)
  have "of_int (round_even (r / quantum r)) * quantum r - r
      = (of_int (round_even (r / quantum r)) - r / quantum r) * quantum r"
    using q by (simp add: field_simps)
  then have "\<bar>of_int (round_even (r / quantum r)) * quantum r - r\<bar>
      = \<bar>of_int (round_even (r / quantum r)) - r / quantum r\<bar> * quantum r"
    using q by (simp add: abs_mult)
  also have "\<dots> \<le> 1 / 2 * quantum r"
    using q round_even_err[of "r / quantum r"] by (intro mult_right_mono) simp_all
  finally show ?thesis by simp
qed

lemma fl_near:
  assumes "\<bar>r\<bar> \<le> 2 ^ 1023"
  obtains s where "fl r = Fin s" "\<bar>s - r\<bar> \<le> \<bar>r\<bar> / 2 ^ 53 + 1 / 2 ^ 1075"
proof (cases "r = 0")
  case True
  show ?thesis by (rule that[of 0]) (simp_all add: True fl_zero)
next
  case False
  define s where "s = of_int (round_even (r / quantum r)) * quantum r"
  have e: "\<bar>s - r\<bar> \<le> quantum r / 2" unfolding s_def by (rule fl_round_err)
  have q: "quantum r \<le> \<bar>r\<bar> / 2 ^ 52 + 1 / 2 ^ 1074" by (rule quantum_le[OF False])
  have err: "\<bar>s - r\<bar> \<le> \<bar>r\<bar> / 2 ^ 53 + 1 / 2 ^ 1075" using e q by simp
  have "\<bar>s\<bar> \<le> \<bar>r\<bar> + \<bar>s - r\<bar>" by simp
  also have "\<dots> \<le> 2 ^ 1023 + (2 ^ 1023 / 2 ^ 53 + 1 / 2 ^ 1075)"
    using err assms by (simp add: divide_right_mono add_mono)
  also have "\<dots> < (2 ^ 1024 :: rat)" by simp
  finally have "\<bar>s\<bar> < overflow_threshold" by (simp add: overflow_threshold_eq)
  then have "fl r = Fin s" by (auto simp add: fl_def Let_def s_def)
  then show ?thesis using err by (rule that)
qed

lemma fl_not_NaN: "fl r \<noteq> NaN"
  by (simp add: fl_def Let_def)

lemma round_even_nonneg: "0 \<le> t \<Longrightarrow> 0 \<le> round_even t"
  by (auto simp add: round_even_def Let_def)

lemma fl_nonneg:
  assumes "0 \<le> r"
  shows "fl r = PInf \<or> (\<exists>s. 0 \<le> s \<and> fl r = Fin s)"
proof -
  have "0 \<le> r / quantum r" using assms quantum_pos[of r] by simp
  then have "0 \<le> round_even (r / quantum r)" by (rule round_even_nonneg)
  then have "(0::rat) \<le> of_int (round_even (r / quantum r)) * quantum r"
    using quantum_pos[of r] by simp
  moreover have "(0::rat) < overflow_threshold" by (simp add: overflow_threshold_def)
  ultimately show ?thesis by (auto simp add: fl_def Let_def)
qed

section \<open>\<open>round2\<close> on amounts up to ten trillion\<close>


lemma tiny_le: "(1::rat) / 2 ^ 1075 \<le> 1 / 2 ^ 60"
  by simp

lemma fl_near_bound:
  assumes "- M \<le> r" "r \<le> M" "M \<le> 2 ^ 1023"
  obtains s where "fl r = Fin s"
    "r - (M / 2 ^ 53 + 1 / 2 ^ 60) \<le> s" "s \<le> r + (M / 2 ^ 53 + 1 / 2 ^ 60)"
proof -
  have rM: "\<bar>r\<bar> \<le> M" using assms(1,2) by (simp add: abs_le_iff)
  then have "\<bar>r\<bar> \<le> 2 ^ 1023" using assms(3) by simp
  then obtain s where s: "fl r = Fin s" "\<bar>s - r\<bar> \<le> \<bar>r\<bar> / 2 ^ 53 + 1 / 2 ^ 1075"
    by (rule fl_near)
  have "\<bar>r\<bar> / 2 ^ 53 \<le> M / 2 ^ 53" using rM by (simp add: divide_right_mono)
  then have "\<bar>s - r\<bar> \<le> M / 2 ^ 53 + 1 / 2 ^ 60" using s(2) tiny_le by linarith
  then have "r - (M / 2 ^ 53 + 1 / 2 ^ 60) \<le> s" "s \<le> r + (M / 2 ^ 53 + 1 / 2 ^ 60)"
    by linarith+
  with s(1) show ?thesis by (rule that)
qed

lemma round2_Fin_form:
  assumes "\<bar>x\<bar> \<le> 10 ^ 13"
  obtains k :: int where "round2 (Fin x) = fl (of_int k / 100)"
    "- (10 ^ 15 + 4) \<le> k" "k \<le> 10 ^ 15 + 4"
proof -
  have x0: "- (10 ^ 13) \<le> x" "x \<le> 10 ^ 13" using assms by (simp_all add: abs_le_iff)
  have x1: "- (10 ^ 13 + 1) \<le> x + 1 / 2 ^ 52" "x + 1 / 2 ^ 52 \<le> 10 ^ 13 + 1"
    using x0 by simp_all
  obtain a where a: "fl (x + 1 / 2 ^ 52) = Fin a"
    "x + 1 / 2 ^ 52 - ((10 ^ 13 + 1) / 2 ^ 53 + 1 / 2 ^ 60) \<le> a"
    "a \<le> x + 1 / 2 ^ 52 + ((10 ^ 13 + 1) / 2 ^ 53 + 1 / 2 ^ 60)"
    using x1 by (rule fl_near_bound) simp
  have a2: "- (100 * (10 ^ 13 + 2)) \<le> a * 100" "a * 100 \<le> 100 * (10 ^ 13 + 2)"
    using a(2,3) x0 by simp_all
  obtain b where b: "fl (a * 100) = Fin b"
    "a * 100 - (100 * (10 ^ 13 + 2) / 2 ^ 53 + 1 / 2 ^ 60) \<le> b"
    "b \<le> a * 100 + (100 * (10 ^ 13 + 2) / 2 ^ 53 + 1 / 2 ^ 60)"
    using a2 by (rule fl_near_bound) simp
  define k where "k = \<lfloor>b + 1 / 2\<rfloor>"
  have kb: "of_int k \<le> b + 1 / 2" "b + 1 / 2 < of_int k + 1"
    unfolding k_def by linarith+
  have b1: "- (10 ^ 15 + 3) \<le> b" "b \<le> 10 ^ 15 + 3" using b(2,3) a(2,3) x0 by simp_all
  have "(of_int (- (10 ^ 15 + 4)) :: rat) \<le> of_int k" "(of_int k :: rat) \<le> of_int (10 ^ 15 + 4)"
    using kb b1 by simp_all
  then have k1: "- (10 ^ 15 + 4) \<le> k" "k \<le> 10 ^ 15 + 4"
    by (simp_all only: of_int_le_iff)
  have s1: "js_add (Fin x) EPSILON = Fin a" by (simp only: EPSILON_def js_add.simps a(1))
  have s2: "js_mul (Fin a) (Fin 100) = Fin b" by (simp only: js_mul.simps b(1))
  have s3: "Math_round (Fin b) = Fin (of_int k)" by (simp only: Math_round.simps k_def)
  have s4: "js_div (Fin (of_int k)) (Fin 100) = fl (of_int k / 100)" by simp
  have "round2 (Fin x) = fl (of_int k / 100)"
    by (simp only: round2_def s1 s2 s3 s4)
  then show ?thesis using k1 by (rule that)
qed

lemma round2_fixpoint:
  fixes k :: int
  assumes "- (10 ^ 15 + 4) \<le> k" "k \<le> 10 ^ 15 + 4"
  shows "round2 (fl (of_int k / 100)) = fl (of_int k / 100)"
proof -
  have "(of_int (- (10 ^ 15 + 4)) :: rat) \<le> of_int k" "(of_int k :: rat) \<le> of_int (10 ^ 15 + 4)"
    using assms by (simp_all only: of_int_le_iff)
  then have kk: "- (10 ^ 15 + 4) \<le> (of_int k :: rat)" "(of_int k :: rat) \<le> 10 ^ 15 + 4"
    by simp_all
  then have k0: "- ((10 ^ 15 + 4) / 100) \<le> (of_int k :: rat) / 100"
     "(of_int k :: rat) / 100 \<le> (10 ^ 15 + 4) / 100" 
    by simp_all
  obtain y where y: "fl (of_int k / 100) = Fin y"
    "of_int k / 100 - ((10 ^ 15 + 4) / 100 / 2 ^ 53 + 1 / 2 ^ 60) \<le> y"
    "y \<le> of_int k / 100 + ((10 ^ 15 + 4) / 100 / 2 ^ 53 + 1 / 2 ^ 60)"
    using k0 by (rule fl_near_bound) simp
  have y1: "- (10 ^ 13 + 1) \<le> y + 1 / 2 ^ 52" "y + 1 / 2 ^ 52 \<le> 10 ^ 13 + 1"
    using y(2,3) kk by simp_all
  obtain a where a: "fl (y + 1 / 2 ^ 52) = Fin a"
    "y + 1 / 2 ^ 52 - ((10 ^ 13 + 1) / 2 ^ 53 + 1 / 2 ^ 60) \<le> a"
    "a \<le> y + 1 / 2 ^ 52 + ((10 ^ 13 + 1) / 2 ^ 53 + 1 / 2 ^ 60)"
    using y1 by (rule fl_near_bound) simp
  have a2: "- (100 * (10 ^ 13 + 2)) \<le> a * 100" "a * 100 \<le> 100 * (10 ^ 13 + 2)"
    using a(2,3) y1 by simp_all
  obtain b where b: "fl (a * 100) = Fin b"
    "a * 100 - (100 * (10 ^ 13 + 2) / 2 ^ 53 + 1 / 2 ^ 60) \<le> b"
    "b \<le> a * 100 + (100 * (10 ^ 13 + 2) / 2 ^ 53 + 1 / 2 ^ 60)"
    using a2 by (rule fl_near_bound) simp
  have "of_int k \<le> b + 1 / 2" "b + 1 / 2 < of_int k + 1"
    using b(2,3) a(2,3) y(2,3) by simp_all
  then have k: "\<lfloor>b + 1 / 2\<rfloor> = k" by (simp add: floor_unique)
  have s1: "js_add (Fin y) EPSILON = Fin a" by (simp only: EPSILON_def js_add.simps a(1))
  have s2: "js_mul (Fin a) (Fin 100) = Fin b" by (simp only: js_mul.simps b(1))
  have s3: "Math_round (Fin b) = Fin (of_int k)" by (simp only: Math_round.simps k)
  have s4: "js_div (Fin (of_int k)) (Fin 100) = Fin y" using y(1) by simp
  show ?thesis by (simp only: y(1) round2_def s1 s2 s3 s4)
qed

lemma round2_idem:
  assumes "\<bar>x\<bar> \<le> 10 ^ 13"
  shows "round2 (round2 (Fin x)) = round2 (Fin x)"
proof -
  obtain k :: int where k: "round2 (Fin x) = fl (of_int k / 100)"
    "- (10 ^ 15 + 4) \<le> k" "k \<le> 10 ^ 15 + 4"
    using assms by (rule round2_Fin_form)
  show ?thesis unfolding k(1) using k(2,3) by (rule round2_fixpoint)
qed

section \<open>Amounts evaluated\<close>

lemma round2_eval:
  assumes "fl (x + 1 / 2 ^ 52) = Fin a" "fl (a * 100) = Fin b"
    and "fl (of_int \<lfloor>b + 1 / 2\<rfloor> / 100) = y"
  shows "round2 (Fin x) = y"
proof -
  have s1: "js_add (Fin x) EPSILON = Fin a" by (simp only: EPSILON_def js_add.simps assms(1))
  have s2: "js_mul (Fin a) (Fin 100) = Fin b" by (simp only: js_mul.simps assms(2))
  have s3: "js_div (Fin (of_int \<lfloor>b + 1 / 2\<rfloor>)) (Fin 100) = y" using assms(3) by simp
  show ?thesis by (simp only: round2_def s1 s2 Math_round.simps s3)
qed

lemma round2_big_a: "round2 (Fin (2251799813685249 / 64)) = Fin (4503599627370499 / 128)"
proof (rule round2_eval[where a = "2251799813685249 / 64" and b = "7036874417766403 / 2"])
  show "fl ((2251799813685249 / 64) + 1 / 2 ^ 52) = Fin (2251799813685249 / 64)"
    by (rule fl_eqI[where e = "45"]) (simp_all add: fl_eval)
  show "fl ((2251799813685249 / 64) * 100) = Fin (7036874417766403 / 2)"
    by (rule fl_eqI[where e = "51"]) (simp_all add: fl_eval)
  show "fl (rat_of_int \<lfloor>(7036874417766403 / 2 :: rat) + 1 / 2\<rfloor> / 100) = Fin (4503599627370499 / 128)"
  proof -
    have "fl (1759218604441601 / 50) = Fin (4503599627370499 / 128)"
      by (rule fl_eqI[where e = "45"]) (simp_all add: fl_eval)
    then show ?thesis by (simp add: fl_eval)
  qed
qed

lemma round2_big_b: "round2 (Fin (4503599627370499 / 128)) = Fin (1125899906842625 / 32)"
proof (rule round2_eval[where a = "4503599627370499 / 128" and b = "7036874417766405 / 2"])
  show "fl ((4503599627370499 / 128) + 1 / 2 ^ 52) = Fin (4503599627370499 / 128)"
    by (rule fl_eqI[where e = "45"]) (simp_all add: fl_eval)
  show "fl ((4503599627370499 / 128) * 100) = Fin (7036874417766405 / 2)"
    by (rule fl_eqI[where e = "51"]) (simp_all add: fl_eval)
  show "fl (rat_of_int \<lfloor>(7036874417766405 / 2 :: rat) + 1 / 2\<rfloor> / 100) = Fin (1125899906842625 / 32)"
  proof -
    have "fl (3518437208883203 / 100) = Fin (1125899906842625 / 32)"
      by (rule fl_eqI[where e = "45"]) (simp_all add: fl_eval)
    then show ?thesis by (simp add: fl_eval)
  qed
qed

lemma round2_big_c: "round2 (Fin (1125899906842625 / 32)) = Fin (1125899906842625 / 32)"
proof (rule round2_eval[where a = "1125899906842625 / 32" and b = "3518437208883203"])
  show "fl ((1125899906842625 / 32) + 1 / 2 ^ 52) = Fin (1125899906842625 / 32)"
    by (rule fl_eqI[where e = "45"]) (simp_all add: fl_eval)
  show "fl ((1125899906842625 / 32) * 100) = Fin (3518437208883203)"
    by (rule fl_eqI[where e = "51"]) (simp_all add: fl_eval)
  show "fl (rat_of_int \<lfloor>(3518437208883203 :: rat) + 1 / 2\<rfloor> / 100) = Fin (1125899906842625 / 32)"
  proof -
    have "fl (3518437208883203 / 100) = Fin (1125899906842625 / 32)"
      by (rule fl_eqI[where e = "45"]) (simp_all add: fl_eval)
    then show ?thesis by (simp add: fl_eval)
  qed
qed

lemma round2_5_256: "round2 (Fin (1281 / 256)) = Fin (5)"
proof (rule round2_eval[where a = "1281 / 256" and b = "32025 / 64"])
  show "fl ((1281 / 256) + 1 / 2 ^ 52) = Fin (1281 / 256)"
    by (rule fl_eqI[where e = "2"]) (simp_all add: fl_eval)
  show "fl ((1281 / 256) * 100) = Fin (32025 / 64)"
    by (rule fl_eqI[where e = "8"]) (simp_all add: fl_eval)
  show "fl (rat_of_int \<lfloor>(32025 / 64 :: rat) + 1 / 2\<rfloor> / 100) = Fin (5)"
  proof -
    have "fl (5) = Fin (5)"
      by (rule fl_eqI[where e = "2"]) (simp_all add: fl_eval)
    then show ?thesis by (simp add: fl_eval)
  qed
qed

lemma round2_5: "round2 (Fin (5)) = Fin (5)"
proof (rule round2_eval[where a = "5" and b = "500"])
  show "fl (5 + 1 / 2 ^ 52) = Fin (5)"
    by (rule fl_eqI[where e = "2"]) (simp_all add: fl_eval)
  show "fl (5 * 100) = Fin (500)"
    by (rule fl_eqI[where e = "8"]) (simp_all add: fl_eval)
  show "fl (rat_of_int \<lfloor>(500 :: rat) + 1 / 2\<rfloor> / 100) = Fin (5)"
  proof -
    have "fl (5) = Fin (5)"
      by (rule fl_eqI[where e = "2"]) (simp_all add: fl_eval)
    then show ?thesis by (simp add: fl_eval)
  qed
qed

lemma round2_10: "round2 (Fin (10)) = Fin (10)"
proof (rule round2_eval[where a = "10" and b = "1000"])
  show "fl (10 + 1 / 2 ^ 52) = Fin (10)"
    by (rule fl_eqI[where e = "3"]) (simp_all add: fl_eval)
  show "fl (10 * 100) = Fin (1000)"
    by (rule fl_eqI[where e = "9"]) (simp_all add: fl_eval)
  show "fl (rat_of_int \<lfloor>(1000 :: rat) + 1 / 2\<rfloor> / 100) = Fin (10)"
  proof -
    have "fl (10) = Fin (10)"
      by (rule fl_eqI[where e = "3"]) (simp_all add: fl_eval)
    then show ?thesis by (simp add: fl_eval)
  qed
qed

lemma round2_1024th: "round2 (Fin (1 / 1024)) = Fin (0)"
proof (rule round2_eval[where a = "4398046511105 / 4503599627370496" and b = "109951162777625 / 1125899906842624"])
  show "fl ((1 / 1024) + 1 / 2 ^ 52) = Fin (4398046511105 / 4503599627370496)"
    by (rule fl_eqI[where e = "-10"]) (simp_all add: fl_eval)
  show "fl ((4398046511105 / 4503599627370496) * 100) = Fin (109951162777625 / 1125899906842624)"
    by (rule fl_eqI[where e = "-4"]) (simp_all add: fl_eval)
  show "fl (rat_of_int \<lfloor>(109951162777625 / 1125899906842624 :: rat) + 1 / 2\<rfloor> / 100) = Fin (0)"
    by (simp add: fl_eval fl_zero)
qed

lemma round2_neg_tie: "round2 (Fin (- 562949953421313 / 4503599627370496)) = Fin (- 1080863910568919 / 9007199254740992)"
proof (rule round2_eval[where a = "- 1 / 8" and b = "- 25 / 2"])
  show "fl ((- 562949953421313 / 4503599627370496) + 1 / 2 ^ 52) = Fin (- 1 / 8)"
    by (rule fl_eqI[where e = "-3"]) (simp_all add: fl_eval)
  show "fl ((- 1 / 8) * 100) = Fin (- 25 / 2)"
    by (rule fl_eqI[where e = "3"]) (simp_all add: fl_eval)
  show "fl (rat_of_int \<lfloor>(- 25 / 2 :: rat) + 1 / 2\<rfloor> / 100) = Fin (- 1080863910568919 / 9007199254740992)"
  proof -
    have "fl (- 3 / 25) = Fin (- 1080863910568919 / 9007199254740992)"
      by (rule fl_eqI[where e = "-4"]) (simp_all add: fl_eval)
    then show ?thesis by (simp add: fl_eval)
  qed
qed

lemma fl_1: "fl (1) = Fin (1)"
  by (rule fl_eqI[where e = "0"]) (simp_all add: fl_eval)

lemma fl_5: "fl (5) = Fin (5)"
  by (rule fl_eqI[where e = "2"]) (simp_all add: fl_eval)

lemma fl_10: "fl (10) = Fin (10)"
  by (rule fl_eqI[where e = "3"]) (simp_all add: fl_eval)

lemma fl_100: "fl (100) = Fin (100)"
  by (rule fl_eqI[where e = "6"]) (simp_all add: fl_eval)

lemma fl_big_b: "fl (4503599627370499 / 128) = Fin (4503599627370499 / 128)"
  by (rule fl_eqI[where e = "45"]) (simp_all add: fl_eval)

lemma fl_big_c: "fl (1125899906842625 / 32) = Fin (1125899906842625 / 32)"
  by (rule fl_eqI[where e = "45"]) (simp_all add: fl_eval)

lemma fl_big_a: "fl (2251799813685249 / 64) = Fin (2251799813685249 / 64)"
  by (rule fl_eqI[where e = "45"]) (simp_all add: fl_eval)

lemma round2_3: "round2 (Fin (3)) = Fin (3)"
proof (rule round2_eval[where a = "3" and b = "300"])
  show "fl (3 + 1 / 2 ^ 52) = Fin (3)"
    by (rule fl_eqI[where e = "1"]) (simp_all add: fl_eval)
  show "fl (3 * 100) = Fin (300)"
    by (rule fl_eqI[where e = "8"]) (simp_all add: fl_eval)
  show "fl (rat_of_int \<lfloor>(300 :: rat) + 1 / 2\<rfloor> / 100) = Fin (3)"
  proof -
    have "fl (3) = Fin (3)"
      by (rule fl_eqI[where e = "1"]) (simp_all add: fl_eval)
    then show ?thesis by (simp add: fl_eval)
  qed
qed

lemma round2_7: "round2 (Fin (7)) = Fin (7)"
proof (rule round2_eval[where a = "7" and b = "700"])
  show "fl (7 + 1 / 2 ^ 52) = Fin (7)"
    by (rule fl_eqI[where e = "2"]) (simp_all add: fl_eval)
  show "fl (7 * 100) = Fin (700)"
    by (rule fl_eqI[where e = "9"]) (simp_all add: fl_eval)
  show "fl (rat_of_int \<lfloor>(700 :: rat) + 1 / 2\<rfloor> / 100) = Fin (7)"
  proof -
    have "fl (7) = Fin (7)"
      by (rule fl_eqI[where e = "2"]) (simp_all add: fl_eval)
    then show ?thesis by (simp add: fl_eval)
  qed
qed

lemma round2_8: "round2 (Fin (8)) = Fin (8)"
proof (rule round2_eval[where a = "8" and b = "800"])
  show "fl (8 + 1 / 2 ^ 52) = Fin (8)"
    by (rule fl_eqI[where e = "3"]) (simp_all add: fl_eval)
  show "fl (8 * 100) = Fin (800)"
    by (rule fl_eqI[where e = "9"]) (simp_all add: fl_eval)
  show "fl (rat_of_int \<lfloor>(800 :: rat) + 1 / 2\<rfloor> / 100) = Fin (8)"
  proof -
    have "fl (8) = Fin (8)"
      by (rule fl_eqI[where e = "3"]) (simp_all add: fl_eval)
    then show ?thesis by (simp add: fl_eval)
  qed
qed

lemma fl_8: "fl (8) = Fin (8)"
  by (rule fl_eqI[where e = "3"]) (simp_all add: fl_eval)

lemma fl_20: "fl (20) = Fin (20)"
  by (rule fl_eqI[where e = "4"]) (simp_all add: fl_eval)

lemma fl_neg_tie: "fl (- 562949953421313 / 4503599627370496) = Fin (- 562949953421313 / 4503599627370496)"
  by (rule fl_eqI[where e = "-3"]) (simp_all add: fl_eval)

lemma fl_1024th: "fl (1 / 1024) = Fin (1 / 1024)"
  by (rule fl_eqI[where e = "-10"]) (simp_all add: fl_eval)

lemma fl_1281_256: "fl (1281 / 256) = Fin (1281 / 256)"
  by (rule fl_eqI[where e = "2"]) (simp_all add: fl_eval)

lemma fl_neg_12_cents: "fl (- 3 / 25) = Fin (- 1080863910568919 / 9007199254740992)"
  by (rule fl_eqI[where e = "-4"]) (simp_all add: fl_eval)

lemma fl_neg_13_cents: "fl (- 13 / 100) = Fin (- 1170935903116329 / 9007199254740992)"
  by (rule fl_eqI[where e = "-3"]) (simp_all add: fl_eval)

lemma scaled_eval:
  assumes "fl (x + 1 / 2 ^ 52) = Fin a" "fl (a * 100) = Fin b"
  shows "js_mul (js_add (Fin x) EPSILON) (Fin 100) = Fin b"
  by (simp only: EPSILON_def js_add.simps assms(1) js_mul.simps assms(2))

lemma scaled_neg_tie: "js_mul (js_add (Fin (- 562949953421313 / 4503599627370496)) EPSILON) (Fin 100) = Fin (- 25 / 2)"
proof (rule scaled_eval[where a = "- 1 / 8"])
  show "fl ((- 562949953421313 / 4503599627370496) + 1 / 2 ^ 52) = Fin (- 1 / 8)"
    by (rule fl_eqI[where e = "-3"]) (simp_all add: fl_eval)
  show "fl ((- 1 / 8) * 100) = Fin (- 25 / 2)"
    by (rule fl_eqI[where e = "3"]) (simp_all add: fl_eval)
qed

lemma scaled_eighth: "js_mul (js_add (Fin (1 / 8)) EPSILON) (Fin 100) = Fin (1759218604441603 / 140737488355328)"
proof (rule scaled_eval[where a = "562949953421313 / 4503599627370496"])
  show "fl ((1 / 8) + 1 / 2 ^ 52) = Fin (562949953421313 / 4503599627370496)"
    by (rule fl_eqI[where e = "-3"]) (simp_all add: fl_eval)
  show "fl ((562949953421313 / 4503599627370496) * 100) = Fin (1759218604441603 / 140737488355328)"
    by (rule fl_eqI[where e = "3"]) (simp_all add: fl_eval)
qed

lemma round2_neg_3: "round2 (Fin (- 3)) = Fin (- 3)"
proof (rule round2_eval[where a = "- 3" and b = "- 300"])
  show "fl ((- 3) + 1 / 2 ^ 52) = Fin (- 3)"
    by (rule fl_eqI[where e = "1"]) (simp_all add: fl_eval)
  show "fl ((- 3) * 100) = Fin (- 300)"
    by (rule fl_eqI[where e = "8"]) (simp_all add: fl_eval)
  show "fl (rat_of_int \<lfloor>(- 300 :: rat) + 1 / 2\<rfloor> / 100) = Fin (- 3)"
  proof -
    have "fl (- 3) = Fin (- 3)"
      by (rule fl_eqI[where e = "1"]) (simp_all add: fl_eval)
    then show ?thesis by (simp add: fl_eval)
  qed
qed

lemma round2_NaN: "round2 NaN = NaN"
  by (simp add: round2_def)

lemma trim_Bike: "trim ''Bike'' = ''Bike''"
  by (simp add: trim_def is_space_def)

lemma trim_Nil: "trim [] = []"
  by (simp add: trim_def)

section \<open>Lists of goals\<close>

lemma find_update_first:
  assumes "find P xs = Some x" "P (f x)"
  shows "find P (update_first P f xs) = Some (f x)"
  using assms by (induction xs) (auto split: if_splits)

lemma filter_other_ids:
  assumes "find (\<lambda>g. goal_id g = i) gs = None"
  shows "filter (\<lambda>g. goal_id g \<noteq> i) gs = gs"
  using assms by (induction gs) (auto split: if_splits)

lemma update_first_const:
  assumes "find P xs = Some x"
  shows "update_first P f xs = update_first P (\<lambda>_. f x) xs"
  using assms by (induction xs) (auto split: if_splits)

lemma find_Some_P: "find P xs = Some x \<Longrightarrow> P x"
  by (induction xs) (auto split: if_splits)

section \<open>Signs, the clamp at zero and full progress\<close>

lemma round_even_nonpos:
  assumes "t \<le> 0"
  shows "round_even t \<le> 0"
proof (cases "t = 0")
  case True
  then show ?thesis by (simp add: round_even_def)
next
  case False
  then have "t < 0" using assms by simp
  then have "\<lfloor>t\<rfloor> < 0" by (simp add: floor_less_iff)
  then show ?thesis by (auto simp add: round_even_def Let_def)
qed

lemma fl_nonpos:
  assumes "r \<le> 0"
  shows "fl r = NInf \<or> (\<exists>s. s \<le> 0 \<and> fl r = Fin s)"
proof -
  have "r / quantum r \<le> 0" using assms quantum_pos[of r] by (simp add: divide_le_0_iff)
  then have "round_even (r / quantum r) \<le> 0" by (rule round_even_nonpos)
  then have "of_int (round_even (r / quantum r)) * quantum r \<le> (0::rat)"
    using quantum_pos[of r] by (simp add: mult_le_0_iff)
  moreover have "(0::rat) < overflow_threshold" by (simp add: overflow_threshold_def)
  ultimately show ?thesis by (auto simp add: fl_def Let_def)
qed

lemma Math_max_fl_nonneg:
  assumes "0 \<le> c"
  shows "Math_max (Fin 0) (fl c) = fl c"
  using fl_nonneg[OF assms] by (auto simp add: Math_max_def)

lemma Math_max_fl_nonpos:
  assumes "c \<le> 0"
  shows "Math_max (Fin 0) (fl c) = Fin 0"
  using fl_nonpos[OF assms] by (auto simp add: Math_max_def)

lemma Math_max_diff_ge:
  assumes "js_le s r"
  shows "Math_max (Fin 0) (js_sub r s) = js_sub r s"
proof (cases r)
  case (Fin a)
  show ?thesis
  proof (cases s)
    case b: (Fin b)
    have "0 \<le> a - b" using assms Fin b by (simp add: js_le_def)
    then show ?thesis using Fin b by (simp add: Math_max_fl_nonneg)
  next
    case NaN then show ?thesis using assms by (simp add: js_le_def)
  next
    case PInf then show ?thesis using assms Fin by (simp add: js_le_def)
  next
    case NInf then show ?thesis using Fin by (simp add: Math_max_def)
  qed
next
  case NaN then show ?thesis using assms by (simp add: js_le_def)
next
  case PInf then show ?thesis by (cases s) (simp_all add: Math_max_def)
next
  case NInf then show ?thesis using assms by (cases s) (simp_all add: Math_max_def js_le_def)
qed

lemma Math_max_diff_lt:
  assumes "js_lt r s"
  shows "Math_max (Fin 0) (js_sub r s) = Fin 0"
proof (cases r)
  case (Fin a)
  show ?thesis
  proof (cases s)
    case b: (Fin b)
    have "a - b \<le> 0" using assms Fin b by simp
    then show ?thesis using Fin b by (simp add: Math_max_fl_nonpos)
  next
    case NaN then show ?thesis using assms Fin by simp
  next
    case PInf then show ?thesis using Fin by (simp add: Math_max_def)
  next
    case NInf then show ?thesis using assms Fin by simp
  qed
next
  case NaN then show ?thesis using assms by simp
next
  case PInf then show ?thesis using assms by (cases s) simp_all
next
  case NInf then show ?thesis using assms by (cases s) (simp_all add: Math_max_def)
qed

lemma progress_full:
  assumes "js_gt (Fin t) (Fin 0)"
  shows "computeProgressPct (Fin t) (Fin t) = Fin 100"
proof -
  have t: "0 < t" using assms by (simp add: js_gt_def)
  show ?thesis
    using t by (simp add: computeProgressPct_def js_le_def fl_1 fl_100 clamp_def Math_max_def Math_min_def)
qed

lemma js_gt_Fin_cases:
  assumes "js_gt s t" "js_gt t (Fin 0)"
  obtains r where "t = Fin r" "0 < r"
  using assms by (cases t; cases s) (auto simp add: js_gt_def)

lemma aggregate_bike:
  "totalRequired (aggregate [bike]) = Fin 10" "totalSaved (aggregate [bike]) = Fin 5"
  by (simp_all add: aggregate_def Let_def bike_def fl_10 fl_5)

lemma aggregate_bike_over:
  "totalRequired (aggregate [bike\<lparr>saved := Fin 20\<rparr>]) = Fin 10"
  "totalSaved (aggregate [bike\<lparr>saved := Fin 20\<rparr>]) = Fin 20"
  by (simp_all add: aggregate_def Let_def bike_def fl_10 fl_20)

section \<open>Amounts in hundredths, up to a trillion\<close>

text \<open>
  Up to a trillion the doubles are far finer than a hundredth: a value within a thousandth
  of \<open>k / 100\<close> is rounded by \<open>round2\<close> to \<open>cents k\<close>, the hundredths are ordered as their
  integers are, and differences and sums of hundredths are hundredths.
\<close>

lemma of_int_bounds:
  fixes k :: int
  assumes "- K \<le> k" "k \<le> K"
  shows "- (of_int K :: rat) \<le> of_int k" "(of_int k :: rat) \<le> of_int K"
  using assms by (simp_all only: of_int_le_iff of_int_minus[symmetric])

lemma cents_value:
  assumes "- (10 ^ 14 + 4) \<le> k" "k \<le> 10 ^ 14 + 4"
  obtains y where "cents k = Fin y" "of_int k / 100 - 1 / 5000 \<le> y" "y \<le> of_int k / 100 + 1 / 5000"
proof -
  have kk: "- (10 ^ 14 + 4) \<le> (of_int k :: rat)" "(of_int k :: rat) \<le> 10 ^ 14 + 4"
    using of_int_bounds[OF assms] by simp_all
  then have k0: "- ((10 ^ 14 + 4) / 100) \<le> (of_int k :: rat) / 100"
     "(of_int k :: rat) / 100 \<le> (10 ^ 14 + 4) / 100"
    by simp_all
  obtain y where y: "fl (of_int k / 100) = Fin y"
    "of_int k / 100 - ((10 ^ 14 + 4) / 100 / 2 ^ 53 + 1 / 2 ^ 60) \<le> y"
    "y \<le> of_int k / 100 + ((10 ^ 14 + 4) / 100 / 2 ^ 53 + 1 / 2 ^ 60)"
    using k0 by (rule fl_near_bound) simp
  have "cents k = Fin y" by (simp add: cents_def y(1))
  moreover have "of_int k / 100 - 1 / 5000 \<le> y" "y \<le> of_int k / 100 + 1 / 5000"
    using y(2,3) by simp_all
  ultimately show ?thesis by (rule that)
qed

lemma round2_near_cents:
  assumes "- (10 ^ 14 + 4) \<le> k" "k \<le> 10 ^ 14 + 4"
    and "of_int k / 100 - 1 / 1000 \<le> z" "z \<le> of_int k / 100 + 1 / 1000"
  shows "round2 (Fin z) = cents k"
proof -
  have kk: "- (10 ^ 14 + 4) \<le> (of_int k :: rat)" "(of_int k :: rat) \<le> 10 ^ 14 + 4"
    using of_int_bounds[OF assms(1,2)] by simp_all
  have z1: "- (10 ^ 12 + 1) \<le> z + 1 / 2 ^ 52" "z + 1 / 2 ^ 52 \<le> 10 ^ 12 + 1"
    using assms(3,4) kk by simp_all
  obtain a where a: "fl (z + 1 / 2 ^ 52) = Fin a"
    "z + 1 / 2 ^ 52 - ((10 ^ 12 + 1) / 2 ^ 53 + 1 / 2 ^ 60) \<le> a"
    "a \<le> z + 1 / 2 ^ 52 + ((10 ^ 12 + 1) / 2 ^ 53 + 1 / 2 ^ 60)"
    using z1 by (rule fl_near_bound) simp
  have a2: "- (100 * (10 ^ 12 + 2)) \<le> a * 100" "a * 100 \<le> 100 * (10 ^ 12 + 2)"
    using a(2,3) z1 by simp_all
  obtain b where b: "fl (a * 100) = Fin b"
    "a * 100 - (100 * (10 ^ 12 + 2) / 2 ^ 53 + 1 / 2 ^ 60) \<le> b"
    "b \<le> a * 100 + (100 * (10 ^ 12 + 2) / 2 ^ 53 + 1 / 2 ^ 60)"
    using a2 by (rule fl_near_bound) simp
  have "of_int k \<le> b + 1 / 2" "b + 1 / 2 < of_int k + 1"
    using b(2,3) a(2,3) assms(3,4) by simp_all
  then have k: "\<lfloor>b + 1 / 2\<rfloor> = k" by (simp add: floor_unique)
  have s1: "js_add (Fin z) EPSILON = Fin a" by (simp only: EPSILON_def js_add.simps a(1))
  have s2: "js_mul (Fin a) (Fin 100) = Fin b" by (simp only: js_mul.simps b(1))
  have s3: "Math_round (Fin b) = Fin (of_int k)" by (simp only: Math_round.simps k)
  have s4: "js_div (Fin (of_int k)) (Fin 100) = cents k" by (simp add: cents_def)
  show ?thesis by (simp only: round2_def s1 s2 s3 s4)
qed

lemma cents_less:
  assumes "- (10 ^ 14 + 4) \<le> j" "j < k" "k \<le> 10 ^ 14 + 4"
  shows "js_lt (cents j) (cents k)"
proof -
  have j2: "j \<le> 10 ^ 14 + 4" and k1: "- (10 ^ 14 + 4) \<le> k" using assms by simp_all
  obtain x where x: "cents j = Fin x" "x \<le> of_int j / 100 + 1 / 5000"
    using cents_value[OF assms(1) j2] by blast
  obtain y where y: "cents k = Fin y" "of_int k / 100 - 1 / 5000 \<le> y"
    using cents_value[OF k1 assms(3)] by blast
  have "j + 1 \<le> k" using assms(2) by simp
  then have "(of_int (j + 1) :: rat) \<le> of_int k" by (simp only: of_int_le_iff)
  then have "(of_int j :: rat) + 1 \<le> of_int k" by simp
  then have "x < y" using x(2) y(2) by simp
  then show ?thesis by (simp add: x(1) y(1))
qed

lemma js_lt_irrefl: "\<not> js_lt a a"
  by (cases a) simp_all

lemma cents_le_iff:
  assumes "- (10 ^ 14 + 4) \<le> j" "j \<le> 10 ^ 14 + 4" "- (10 ^ 14 + 4) \<le> k" "k \<le> 10 ^ 14 + 4"
  shows "js_le (cents j) (cents k) \<longleftrightarrow> j \<le> k"
proof
  assume l: "js_le (cents j) (cents k)"
  show "j \<le> k"
  proof (rule ccontr)
    assume "\<not> j \<le> k"
    then have "k < j" by simp
    then have "js_lt (cents k) (cents j)" using assms by (intro cents_less) simp_all
    then show False using l by (simp add: js_le_def)
  qed
next
  assume jk: "j \<le> k"
  show "js_le (cents j) (cents k)"
  proof (cases "j = k")
    case True
    then show ?thesis by (simp add: js_le_def cents_def fl_not_NaN js_lt_irrefl)
  next
    case False
    then have "j < k" using jk by simp
    then have "js_lt (cents j) (cents k)" using assms by (intro cents_less) simp_all
    then show ?thesis
      by (cases "cents j"; cases "cents k") (auto simp add: js_le_def)
  qed
qed

lemma cents_0: "cents 0 = Fin 0"
  by (simp add: cents_def fl_zero)

lemma round2_cents_form:
  assumes "\<bar>x\<bar> \<le> 10 ^ 12"
  obtains k :: int where "round2 (Fin x) = cents k"
    "- (10 ^ 14 + 4) \<le> k" "k \<le> 10 ^ 14 + 4" "0 \<le> x \<longrightarrow> 0 \<le> k"
proof -
  have x0: "- (10 ^ 12) \<le> x" "x \<le> 10 ^ 12" using assms by (simp_all add: abs_le_iff)
  have x1: "- (10 ^ 12 + 1) \<le> x + 1 / 2 ^ 52" "x + 1 / 2 ^ 52 \<le> 10 ^ 12 + 1"
    using x0 by simp_all
  obtain a where a: "fl (x + 1 / 2 ^ 52) = Fin a"
    "x + 1 / 2 ^ 52 - ((10 ^ 12 + 1) / 2 ^ 53 + 1 / 2 ^ 60) \<le> a"
    "a \<le> x + 1 / 2 ^ 52 + ((10 ^ 12 + 1) / 2 ^ 53 + 1 / 2 ^ 60)"
    using x1 by (rule fl_near_bound) simp
  have a2: "- (100 * (10 ^ 12 + 2)) \<le> a * 100" "a * 100 \<le> 100 * (10 ^ 12 + 2)"
    using a(2,3) x0 by simp_all
  obtain b where b: "fl (a * 100) = Fin b"
    "a * 100 - (100 * (10 ^ 12 + 2) / 2 ^ 53 + 1 / 2 ^ 60) \<le> b"
    "b \<le> a * 100 + (100 * (10 ^ 12 + 2) / 2 ^ 53 + 1 / 2 ^ 60)"
    using a2 by (rule fl_near_bound) simp
  define k where "k = \<lfloor>b + 1 / 2\<rfloor>"
  have kb: "of_int k \<le> b + 1 / 2" "b + 1 / 2 < of_int k + 1"
    unfolding k_def by linarith+
  have b1: "- (10 ^ 14 + 3) \<le> b" "b \<le> 10 ^ 14 + 3" using b(2,3) a(2,3) x0 by simp_all
  have "(of_int (- (10 ^ 14 + 4)) :: rat) \<le> of_int k" "(of_int k :: rat) \<le> of_int (10 ^ 14 + 4)"
    using kb b1 by simp_all
  then have k1: "- (10 ^ 14 + 4) \<le> k" "k \<le> 10 ^ 14 + 4"
    by (simp_all only: of_int_le_iff)
  have pos: "0 \<le> x \<longrightarrow> 0 \<le> k"
  proof
    assume "0 \<le> x"
    then have "0 \<le> x + 1 / 2 ^ 52" by simp
    then have "0 \<le> a" using fl_nonneg[of "x + 1 / 2 ^ 52"] a(1) by auto
    then have "0 \<le> a * 100" by simp
    then have "0 \<le> b" using fl_nonneg[of "a * 100"] b(1) by auto
    then have "0 \<le> b + 1 / 2" by simp
    then show "0 \<le> k" unfolding k_def by (simp only: zero_le_floor)
  qed
  have s1: "js_add (Fin x) EPSILON = Fin a" by (simp only: EPSILON_def js_add.simps a(1))
  have s2: "js_mul (Fin a) (Fin 100) = Fin b" by (simp only: js_mul.simps b(1))
  have s3: "Math_round (Fin b) = Fin (of_int k)" by (simp only: Math_round.simps k_def)
  have s4: "js_div (Fin (of_int k)) (Fin 100) = cents k" by (simp add: cents_def)
  have "round2 (Fin x) = cents k"
    by (simp only: round2_def s1 s2 s3 s4)
  then show ?thesis using k1 pos by (rule that)
qed

lemma remaining_cents:
  assumes "0 \<le> S" "S \<le> T" "T \<le> 10 ^ 14 + 4"
  shows "computeRemaining (cents T) (cents S) = cents (T - S)"
proof -
  have rs: "- (10 ^ 14 + 4) \<le> S" "S \<le> 10 ^ 14 + 4" and rt: "- (10 ^ 14 + 4) \<le> T"
    using assms by simp_all
  obtain t where t: "cents T = Fin t" "of_int T / 100 - 1 / 5000 \<le> t" "t \<le> of_int T / 100 + 1 / 5000"
    using cents_value[OF rt assms(3)] by blast
  obtain s where s: "cents S = Fin s" "of_int S / 100 - 1 / 5000 \<le> s" "s \<le> of_int S / 100 + 1 / 5000"
    using cents_value[OF rs] by blast
  have ts: "(0::rat) \<le> of_int T - of_int S" "(of_int T :: rat) - of_int S \<le> 10 ^ 14 + 4"
    using of_int_bounds[of "10 ^ 14 + 4" "T - S"] assms by simp_all
  have d0: "- (10 ^ 12 + 1) \<le> t - s" "t - s \<le> 10 ^ 12 + 1"
    using t(2,3) s(2,3) ts by simp_all
  obtain d where d: "fl (t - s) = Fin d"
    "t - s - ((10 ^ 12 + 1) / 2 ^ 53 + 1 / 2 ^ 60) \<le> d"
    "d \<le> t - s + ((10 ^ 12 + 1) / 2 ^ 53 + 1 / 2 ^ 60)"
    using d0 by (rule fl_near_bound) simp
  have m: "Math_max (Fin 0) (Fin d) = Fin (max 0 d)"
    by (simp add: Math_max_def max_def)
  have n1: "of_int (T - S) / 100 - 1 / 1000 \<le> max 0 d"
    using d(2,3) t(2,3) s(2,3) ts by (auto simp add: max_def diff_divide_distrib; linarith?)
  have n2: "max 0 d \<le> of_int (T - S) / 100 + 1 / 1000"
    using d(2,3) t(2,3) s(2,3) ts by (auto simp add: max_def diff_divide_distrib; linarith?)
  note n = n1 n2
  have "round2 (Fin (max 0 d)) = cents (T - S)"
    using _ _ n by (rule round2_near_cents) (use assms in simp_all)
  then show ?thesis
    by (simp add: computeRemaining_def t(1) s(1) d(1) m)
qed

lemma add_cents:
  assumes "0 \<le> S" "0 \<le> A" "S + A \<le> 10 ^ 14 + 4"
  shows "round2 (js_add (cents S) (cents A)) = cents (S + A)"
proof -
  have rs: "- (10 ^ 14 + 4) \<le> S" "S \<le> 10 ^ 14 + 4" and ra: "- (10 ^ 14 + 4) \<le> A" "A \<le> 10 ^ 14 + 4"
    using assms by simp_all
  obtain a where a: "cents A = Fin a" "of_int A / 100 - 1 / 5000 \<le> a" "a \<le> of_int A / 100 + 1 / 5000"
    using cents_value[OF ra] by blast
  obtain s where s: "cents S = Fin s" "of_int S / 100 - 1 / 5000 \<le> s" "s \<le> of_int S / 100 + 1 / 5000"
    using cents_value[OF rs] by blast
  have sa: "(0::rat) \<le> of_int S + of_int A" "(of_int S :: rat) + of_int A \<le> 10 ^ 14 + 4"
    using of_int_bounds[of "10 ^ 14 + 4" "S + A"] assms by simp_all
  have d0: "- (10 ^ 12 + 1) \<le> s + a" "s + a \<le> 10 ^ 12 + 1"
    using a(2,3) s(2,3) sa by simp_all
  obtain d where d: "fl (s + a) = Fin d"
    "s + a - ((10 ^ 12 + 1) / 2 ^ 53 + 1 / 2 ^ 60) \<le> d"
    "d \<le> s + a + ((10 ^ 12 + 1) / 2 ^ 53 + 1 / 2 ^ 60)"
    using d0 by (rule fl_near_bound) simp
  have n1: "of_int (S + A) / 100 - 1 / 1000 \<le> d"
    using d(2,3) a(2,3) s(2,3) by (auto simp add: add_divide_distrib; linarith?)
  have n2: "d \<le> of_int (S + A) / 100 + 1 / 1000"
    using d(2,3) a(2,3) s(2,3) by (auto simp add: add_divide_distrib; linarith?)
  note n = n1 n2
  have "round2 (Fin d) = cents (S + A)"
    using _ _ n by (rule round2_near_cents) (use assms in simp_all)
  then show ?thesis by (simp add: a(1) s(1) d(1))
qed

lemma js_gt_cents_pos:
  assumes "- (10 ^ 14 + 4) \<le> A" "A \<le> 10 ^ 14 + 4" "js_gt (cents A) (Fin 0)"
  shows "0 < A"
proof (rule ccontr)
  assume "\<not> 0 < A"
  then have "A \<le> 0" by simp
  then have "js_le (cents A) (cents 0)" using assms(1,2) by (subst cents_le_iff) simp_all
  then show False using assms(3) by (simp add: js_le_def js_gt_def cents_0)
qed

lemma not_js_lt_cents:
  assumes "- (10 ^ 14 + 4) \<le> j" "j \<le> 10 ^ 14 + 4" "- (10 ^ 14 + 4) \<le> k" "k \<le> 10 ^ 14 + 4"
    and "\<not> js_lt (cents j) (cents k)"
  shows "k \<le> j"
proof (rule ccontr)
  assume "\<not> k \<le> j"
  then have "j < k" by simp
  then have "js_lt (cents j) (cents k)" using assms(1,4) by (intro cents_less) simp_all
  then show False using assms(5) by simp
qed

lemma cents_goal_within_target:
  assumes "cents_goal g"
  shows "within_target g"
proof -
  obtain S T where g: "0 \<le> S" "S \<le> T" "T \<le> 10 ^ 14 + 4" "target g = cents T" "saved g = cents S"
    using assms by (auto simp add: cents_goal_def)
  have "js_le (cents 0) (cents S)" using g(1,2,3) by (subst cents_le_iff) simp_all
  moreover have "js_le (cents S) (cents T)" using g(1,2,3) by (subst cents_le_iff) simp_all
  ultimately show ?thesis by (simp add: within_target_def g(4,5) cents_0)
qed

lemma addSavings_cents_goal:
  assumes "cents_goal g" "\<bar>a\<bar> \<le> 10 ^ 12"
    and "js_gt (round2 (Fin a)) (Fin 0)"
    and "\<not> js_gt (round2 (Fin a)) (computeRemaining (target g) (saved g))"
  shows "cents_goal (g\<lparr>saved := round2 (js_add (saved g) (round2 (Fin a)))\<rparr>)"
proof -
  obtain S T where g: "0 \<le> S" "S \<le> T" "T \<le> 10 ^ 14 + 4" "target g = cents T" "saved g = cents S"
    using assms(1) by (auto simp add: cents_goal_def)
  obtain A where A: "round2 (Fin a) = cents A" "- (10 ^ 14 + 4) \<le> A" "A \<le> 10 ^ 14 + 4"
    using round2_cents_form[OF assms(2)] by blast
  have pos: "0 < A" using A(2,3) assms(3) unfolding A(1) by (rule js_gt_cents_pos)
  have r: "computeRemaining (target g) (saved g) = cents (T - S)"
    unfolding g(4,5) using g(1,2,3) by (rule remaining_cents)
  have "\<not> js_lt (cents (T - S)) (cents A)" using assms(4) by (simp add: A(1) r js_gt_def)
  then have le: "A \<le> T - S"
    using g(1,2,3) A(2,3) by (intro not_js_lt_cents[of "T - S" A]) simp_all
  have "round2 (js_add (cents S) (cents A)) = cents (S + A)"
    using g(1,3) pos le by (intro add_cents) simp_all
  then have "saved (g\<lparr>saved := round2 (js_add (saved g) (round2 (Fin a)))\<rparr>) = cents (S + A)"
    by (simp add: g(5) A(1))
  moreover have "0 \<le> S + A" "S + A \<le> T" using g(1) pos le by simp_all
  ultimately show ?thesis using g(3,4) unfolding cents_goal_def by (intro exI[of _ "S + A"] exI[of _ T]) simp
qed

lemma editTarget_cents_goal:
  assumes "cents_goal g" "0 < n" "n \<le> 10 ^ 12"
  shows "cents_goal (let g1 = g\<lparr>target := round2 (Fin n)\<rparr>
                     in if js_gt (saved g1) (target g1) then g1\<lparr>saved := target g1\<rparr> else g1)"
proof -
  obtain S T where g: "0 \<le> S" "S \<le> T" "T \<le> 10 ^ 14 + 4" "target g = cents T" "saved g = cents S"
    using assms(1) by (auto simp add: cents_goal_def)
  have "\<bar>n\<bar> \<le> 10 ^ 12" using assms(2,3) by simp
  then obtain N where N: "round2 (Fin n) = cents N" "- (10 ^ 14 + 4) \<le> N" "N \<le> 10 ^ 14 + 4" "0 \<le> N"
    using round2_cents_form[of n] assms(2) by (metis less_eq_rat_def)
  show ?thesis
  proof (cases "js_gt (cents S) (cents N)")
    case True
    then show ?thesis
      using N(3,4) unfolding cents_goal_def Let_def
      by (intro exI[of _ N] exI[of _ N]) (simp add: g(5) N(1))
  next
    case False
    then have "\<not> js_lt (cents N) (cents S)" by (simp add: js_gt_def)
    then have "S \<le> N" using g(1,2,3) N(2,3) by (intro not_js_lt_cents[of N S]) simp_all
    then show ?thesis
      using False g(1) N(3) unfolding cents_goal_def Let_def
      by (intro exI[of _ S] exI[of _ N]) (simp add: g(5) N(1))
  qed
qed

lemma addGoal_cents_goal:
  assumes "0 < t" "t \<le> 10 ^ 12"
  shows "cents_goal \<lparr>goal_id = uid, name = nm, desc = ds, target = round2 (Fin t), saved = Fin 0,
      createdAt = now\<rparr>"
proof -
  have "\<bar>t\<bar> \<le> 10 ^ 12" using assms by simp
  then obtain N where N: "round2 (Fin t) = cents N" "N \<le> 10 ^ 14 + 4" "0 \<le> N"
    using round2_cents_form[of t] assms(1) by (metis less_eq_rat_def)
  show ?thesis
    using N(2,3) unfolding cents_goal_def
    by (intro exI[of _ 0] exI[of _ N]) (simp add: N(1) cents_0)
qed

lemma list_all_update_first:
  assumes "find Q xs = Some x" "list_all P xs" "P (f x)"
  shows "list_all P (update_first Q f xs)"
  using assms by (induction xs) (auto split: if_splits)

lemma find_list_all: "find Q xs = Some x \<Longrightarrow> list_all P xs \<Longrightarrow> P x"
  by (induction xs) (auto split: if_splits)

lemma handle_cents_goals:
  assumes "list_all cents_goal (goals st)" "small_event ev"
  shows "list_all cents_goal (goals (handle st ev))"
proof (cases ev)
  case (Create uid now nm ds v)
  show ?thesis
  proof (cases v)
    case (Fin t)
    then have "\<bar>t\<bar> \<le> 10 ^ 12" using assms(2) Create by simp
    then show ?thesis
      using assms(1) Create Fin addGoal_cents_goal[of t uid "trim nm" "trim ds" now]
      by (auto simp add: addGoalForm_submit_def safeNumber_def js_le_def addGoal_def render_def Let_def)
  qed (use assms(1) Create in \<open>simp_all add: addGoalForm_submit_def safeNumber_def\<close>)
next
  case (Add_savings i v)
  show ?thesis
  proof (cases v)
    case (Fin a)
    then have a: "\<bar>a\<bar> \<le> 10 ^ 12" using assms(2) Add_savings by simp
    show ?thesis
    proof (cases "find (\<lambda>g. goal_id g = i) (goals st)")
      case None
      then show ?thesis using assms(1) Add_savings Fin
        by (auto simp add: addSavingsForm_submit_def addSavings_def safeNumber_def Let_def)
    next
      case (Some g)
      have cg: "cents_goal g" using Some assms(1) by (rule find_list_all)
      show ?thesis
      proof (cases "js_gt (round2 (Fin a)) (Fin 0)
          \<and> \<not> js_gt (round2 (Fin a)) (computeRemaining (target g) (saved g))")
        case True
        then have "cents_goal (g\<lparr>saved := round2 (js_add (saved g) (round2 (Fin a)))\<rparr>)"
          using cg a by (intro addSavings_cents_goal) simp_all
        then have "list_all cents_goal (update_first (\<lambda>g. goal_id g = i)
            (\<lambda>g. g\<lparr>saved := round2 (js_add (saved g) (round2 (Fin a)))\<rparr>) (goals st))"
          using Some assms(1) by (intro list_all_update_first[where x = g]) simp_all
        then show ?thesis using assms(1) Add_savings Fin Some
          by (auto simp add: addSavingsForm_submit_def addSavings_def safeNumber_def render_def Let_def)
      next
        case False
        then show ?thesis using assms(1) Add_savings Fin Some
          by (auto simp add: addSavingsForm_submit_def addSavings_def safeNumber_def render_def Let_def)
      qed
    qed
  qed (use assms(1) Add_savings in \<open>simp_all add: addSavingsForm_submit_def safeNumber_def\<close>)
next
  case (Edit_target i input)
  show ?thesis
  proof (cases "find (\<lambda>g. goal_id g = i) (goals st)")
    case None
    then show ?thesis using assms(1) Edit_target by (simp add: editTarget_def)
  next
    case (Some g)
    have cg: "cents_goal g" using Some assms(1) by (rule find_list_all)
    show ?thesis
    proof (cases input)
      case None
      then show ?thesis using assms(1) Edit_target Some by (simp add: editTarget_def)
    next
      case inp: (Some v)
      show ?thesis
      proof (cases v)
        case (Fin n)
        show ?thesis
        proof (cases "0 < n")
          case True
          have "n \<le> 10 ^ 12" using assms(2) Edit_target inp Fin by simp
          with cg True have "cents_goal (let g1 = g\<lparr>target := round2 (Fin n)\<rparr>
                     in if js_gt (saved g1) (target g1) then g1\<lparr>saved := target g1\<rparr> else g1)"
            by (rule editTarget_cents_goal)
          then have "list_all cents_goal (update_first (\<lambda>g. goal_id g = i)
            (\<lambda>g. let g1 = g\<lparr>target := round2 (Fin n)\<rparr>
                     in if js_gt (saved g1) (target g1) then g1\<lparr>saved := target g1\<rparr> else g1) (goals st))"
            using Some assms(1) by (intro list_all_update_first[where x = g]) simp_all
          then show ?thesis using Edit_target Some inp Fin True
            by (simp add: editTarget_def safeNumber_def js_le_def render_def Let_def)
        next
          case False
          then show ?thesis using assms(1) Edit_target Some inp Fin
            by (simp add: editTarget_def safeNumber_def js_le_def)
        qed
      qed (use assms(1) Edit_target Some inp in \<open>simp_all add: editTarget_def safeNumber_def\<close>)
    qed
  qed
next
  case (Delete i)
  then show ?thesis using assms(1) by (simp add: deleteGoal_def render_def list_all_iff)
next
  case Toggle_currency
  then show ?thesis using assms(1) by (simp add: currencyToggle_click_def render_def)
next
  case Toggle_theme
  then show ?thesis using assms(1) by (simp add: themeToggle_click_def render_def)
next
  case (Reset_all ok)
  then show ?thesis using assms(1) by (simp add: resetAll_def render_def)
qed

lemma run_cents_goals:
  assumes "list_all cents_goal (goals st)" "list_all small_event evs"
  shows "list_all cents_goal (goals (foldl handle st evs))"
  using assms by (induction evs arbitrary: st) (simp_all add: handle_cents_goals)

lemma progress_nothing_saved:
  assumes "t \<noteq> NaN"
  shows "computeProgressPct t (Fin 0) = Fin 0"
proof (cases t)
  case (Fin y)
  then show ?thesis
    by (simp add: computeProgressPct_def js_le_def fl_zero clamp_def Math_max_def Math_min_def)
next
  case PInf
  then show ?thesis
    by (simp add: computeProgressPct_def js_le_def fl_zero clamp_def Math_max_def Math_min_def)
qed (use assms in \<open>simp_all add: computeProgressPct_def js_le_def\<close>)

lemma round2_not_NaN: "round2 (Fin x) \<noteq> NaN"
proof -
  obtain a where a: "js_add (Fin x) EPSILON = a" "a \<noteq> NaN"
    by (simp add: EPSILON_def fl_not_NaN)
  have m: "js_mul a (Fin 100) \<noteq> NaN"
    using a(2) by (cases a) (simp_all add: fl_not_NaN signed_inf_def)
  have r: "Math_round (js_mul a (Fin 100)) \<noteq> NaN"
    using m by (cases "js_mul a (Fin 100)") simp_all
  have "js_div (Math_round (js_mul a (Fin 100))) (Fin 100) \<noteq> NaN"
    using r by (cases "Math_round (js_mul a (Fin 100))") (simp_all add: fl_not_NaN)
  then show ?thesis by (simp add: round2_def a(1))
qed

section \<open>Rounding to two digits\<close>

text \<open>
  Where \<open>round2\<close> is not idempotent, and where it does not round half away from zero.
  The double \<open>2\<^sup>4\<^sup>5 + 1/64\<close> (35184372088832.016) rounds to \<open>2\<^sup>4\<^sup>5 + 3/128\<close> (the double of
  35184372088832.02), and that one to \<open>2\<^sup>4\<^sup>5 + 1/32\<close> (the double of 35184372088832.03): from
  \<open>2\<^sup>4\<^sup>5\<close> on the doubles are 1/128 apart and the scaled value is a multiple of 1/2.
  For \<open>x = -(1/8 + 2\<^sup>-\<^sup>5\<^sup>2)\<close> the scaled value is the tie \<open>-12.5\<close>, which \<^verbatim>\<open>Math.round\<close> takes
  to \<open>-12\<close> and rounding half away from zero to \<open>-13\<close>.
\<close>

theorem round2_counterexample:
  "representable (2251799813685249 / 64)
   \<and> round2 (round2 (Fin (2251799813685249 / 64))) \<noteq> round2 (Fin (2251799813685249 / 64))
   \<and> representable (- 562949953421313 / 4503599627370496)
   \<and> js_mul (js_add (Fin (- 562949953421313 / 4503599627370496)) EPSILON) (Fin 100) = Fin (- 25 / 2)
   \<and> round2 (Fin (- 562949953421313 / 4503599627370496)) = js_div (Fin (- 12)) (Fin 100)
   \<and> round_half_away (- 25 / 2) = - 13
   \<and> js_div (Fin (- 12)) (Fin 100) \<noteq> js_div (Fin (- 13)) (Fin 100)"
proof -
  have "- 12 / 100 = (- 3 / 25 :: rat)" by simp
  then have a: "js_div (Fin (- 12)) (Fin 100) = Fin (- 1080863910568919 / 9007199254740992)"
    using fl_neg_12_cents by simp
  have b: "js_div (Fin (- 13)) (Fin 100) = Fin (- 1170935903116329 / 9007199254740992)"
    using fl_neg_13_cents by simp
  have c: "round2 (round2 (Fin (2251799813685249 / 64))) \<noteq> round2 (Fin (2251799813685249 / 64))"
    by (simp add: round2_big_a round2_big_b)
  have d: "representable (2251799813685249 / 64)"
    "representable (- 562949953421313 / 4503599627370496)"
    using fl_big_a fl_neg_tie by (simp_all add: representable_def)
  have e: "round2 (Fin (- 562949953421313 / 4503599627370496)) = js_div (Fin (- 12)) (Fin 100)"
    using round2_neg_tie by (simp only: a)
  have f: "round_half_away (- 25 / 2) = - 13"
    by (simp add: round_half_away_def floor_rat_numeral_div)
  have g: "js_div (Fin (- 12)) (Fin 100) \<noteq> js_div (Fin (- 13)) (Fin 100)"
    unfolding a b by simp
  show ?thesis using c d e f g scaled_neg_tie by blast
qed

text \<open>
  C5, as the script has it. For every finite \<open>x\<close> of magnitude up to \<open>10\<^sup>1\<^sup>3\<close>,
  \<open>round2 (round2 x) = round2 x\<close>. For every finite \<open>x\<close> whose scaled value
  \<open>(x + EPSILON) * 100\<close> is the finite \<open>v\<close>, \<open>round2 x\<close> is the integer nearest to \<open>v\<close>, a tie
  going up, divided by 100; for \<open>v \<ge> 0\<close> that integer is \<open>v\<close> rounded half away from zero.
\<close>

theorem round2_idempotent_half_up:
  "(\<bar>x\<bar> \<le> 10 ^ 13 \<longrightarrow> round2 (round2 (Fin x)) = round2 (Fin x))
   \<and> (js_mul (js_add (Fin x) EPSILON) (Fin 100) = Fin v \<longrightarrow>
        round2 (Fin x) = js_div (Fin (of_int \<lfloor>v + 1 / 2\<rfloor>)) (Fin 100)
        \<and> of_int \<lfloor>v + 1 / 2\<rfloor> - 1 / 2 \<le> v \<and> v < of_int \<lfloor>v + 1 / 2\<rfloor> + 1 / 2
        \<and> (0 \<le> v \<longrightarrow> \<lfloor>v + 1 / 2\<rfloor> = round_half_away v))"
proof (intro conjI impI)
  assume "\<bar>x\<bar> \<le> 10 ^ 13"
  then show "round2 (round2 (Fin x)) = round2 (Fin x)" by (rule round2_idem)
next
  assume "js_mul (js_add (Fin x) EPSILON) (Fin 100) = Fin v"
  then show "round2 (Fin x) = js_div (Fin (of_int \<lfloor>v + 1 / 2\<rfloor>)) (Fin 100)"
    by (simp add: round2_def)
next
  show "of_int \<lfloor>v + 1 / 2\<rfloor> - 1 / 2 \<le> v" by linarith
next
  show "v < of_int \<lfloor>v + 1 / 2\<rfloor> + 1 / 2" by linarith
next
  assume "0 \<le> v"
  then show "\<lfloor>v + 1 / 2\<rfloor> = round_half_away v" by (simp add: round_half_away_def)
qed

text \<open>At \<open>x = 0.125\<close>: the scaled value is just above 12.5 and \<open>round2 x\<close> is 13 / 100.\<close>

theorem round2_idempotent_half_up_witness:
  "\<bar>1 / 8 :: rat\<bar> \<le> 10 ^ 13
   \<and> round2 (round2 (Fin (1 / 8))) = round2 (Fin (1 / 8))
   \<and> js_mul (js_add (Fin (1 / 8)) EPSILON) (Fin 100) = Fin (1759218604441603 / 140737488355328)
   \<and> (0 :: rat) \<le> 1759218604441603 / 140737488355328
   \<and> round2 (Fin (1 / 8)) = js_div (Fin 13) (Fin 100)
   \<and> round_half_away (1759218604441603 / 140737488355328) = 13"
proof -
  have h: "\<bar>1 / 8 :: rat\<bar> \<le> 10 ^ 13" by simp
  have f: "\<lfloor>(1759218604441603 / 140737488355328 :: rat) + 1 / 2\<rfloor> = 13"
    by (simp add: floor_rat_numeral_div)
  have p: "(0 :: rat) \<le> 1759218604441603 / 140737488355328" by simp
  note t = round2_idempotent_half_up[of "1 / 8" "1759218604441603 / 140737488355328"]
  have i: "round2 (round2 (Fin (1 / 8))) = round2 (Fin (1 / 8))" using t h by blast
  have "round2 (Fin (1 / 8))
      = js_div (Fin (of_int \<lfloor>(1759218604441603 / 140737488355328 :: rat) + 1 / 2\<rfloor>)) (Fin 100)"
    using t scaled_eighth by blast
  then have r: "round2 (Fin (1 / 8)) = js_div (Fin 13) (Fin 100)" by (simp only: f of_int_numeral)
  have "\<lfloor>(1759218604441603 / 140737488355328 :: rat) + 1 / 2\<rfloor>
      = round_half_away (1759218604441603 / 140737488355328)"
    using t scaled_eighth p by blast
  then have a: "round_half_away (1759218604441603 / 140737488355328) = 13" by (simp only: f)
  show ?thesis using h i scaled_eighth p r a by blast
qed

section \<open>Creating a goal\<close>

text \<open>
  C7 at the target 35184372088832.016, the double \<open>2\<^sup>4\<^sup>5 + 1/64\<close>, entered in the form with
  the name Bike. The new goal has \<open>saved = 0\<close>, the target \<open>round2\<close> of the input (the double
  of 35184372088832.02) and a progress of 0, but its remaining amount is the double of
  35184372088832.03, which is not its target: \<open>computeRemaining\<close> rounds the target again.
\<close>

theorem addGoal_remaining_differs:
  "representable (2251799813685249 / 64)
   \<and> addGoalForm_submit ''g_1'' 1 ''Bike'' [] (Fin (2251799813685249 / 64)) initial_state
       = (\<lparr>goals = [\<lparr>goal_id = ''g_1'', name = ''Bike'', desc = [],
                       target = Fin (4503599627370499 / 128), saved = Fin 0, createdAt = 1\<rparr>],
            prefs = default_prefs\<rparr>, [Draw, Save])
   \<and> computeRemaining (Fin (4503599627370499 / 128)) (Fin 0) = Fin (1125899906842625 / 32)
   \<and> computeRemaining (Fin (4503599627370499 / 128)) (Fin 0) \<noteq> Fin (4503599627370499 / 128)
   \<and> computeProgressPct (Fin (4503599627370499 / 128)) (Fin 0) = Fin 0"
  by (simp add: representable_def fl_big_a addGoalForm_submit_def addGoal_def safeNumber_def
      js_le_def trim_Bike trim_Nil initial_state_def render_def round2_big_a computeRemaining_def
      fl_big_b Math_max_def round2_big_b computeProgressPct_def fl_zero clamp_def Math_min_def)

text \<open>
  The input passes the checks of the form, and the goal it creates is the only one of the
  store, with a remaining amount above its target.
\<close>

theorem addGoal_remaining_differs_witness:
  "trim ''Bike'' \<noteq> [] \<and> isFinite (safeNumber (Fin (2251799813685249 / 64)))
   \<and> \<not> js_le (safeNumber (Fin (2251799813685249 / 64))) (Fin 0)
   \<and> map target (goals (fst (addGoalForm_submit ''g_1'' 1 ''Bike'' []
         (Fin (2251799813685249 / 64)) initial_state))) = [Fin (4503599627370499 / 128)]
   \<and> map saved (goals (fst (addGoalForm_submit ''g_1'' 1 ''Bike'' []
         (Fin (2251799813685249 / 64)) initial_state))) = [Fin 0]
   \<and> js_gt (computeRemaining (Fin (4503599627370499 / 128)) (Fin 0)) (Fin (4503599627370499 / 128))"
proof -
  have a: "trim ''Bike'' \<noteq> []" by (simp add: trim_Bike)
  have b: "isFinite (safeNumber (Fin (2251799813685249 / 64)))"
    "\<not> js_le (safeNumber (Fin (2251799813685249 / 64))) (Fin 0)"
    by (simp_all add: safeNumber_def js_le_def)
  show ?thesis using a b addGoal_remaining_differs by (simp add: js_gt_def)
qed

text \<open>
  Every input that passes the checks of the form gives a goal with nothing saved, the
  rounded target and a progress of 0; up to a trillion its remaining amount is its target.
\<close>

theorem new_goal:
  assumes "trim nm \<noteq> []" "0 < t"
  shows "\<exists>g. addGoalForm_submit uid now nm ds (Fin t) st = (st\<lparr>goals := goals st @ [g]\<rparr>, [Draw, Save])
      \<and> saved g = Fin 0 \<and> target g = round2 (Fin t)
      \<and> computeProgressPct (target g) (saved g) = Fin 0
      \<and> (t \<le> 10 ^ 12 \<longrightarrow> computeRemaining (target g) (saved g) = target g)"
proof -
  let ?g = "\<lparr>goal_id = uid, name = trim nm, desc = trim ds, target = round2 (Fin t),
      saved = Fin 0, createdAt = now\<rparr>"
  have e: "addGoalForm_submit uid now nm ds (Fin t) st = (st\<lparr>goals := goals st @ [?g]\<rparr>, [Draw, Save])"
    using assms by (simp add: addGoalForm_submit_def safeNumber_def js_le_def addGoal_def render_def)
  have p: "computeProgressPct (target ?g) (saved ?g) = Fin 0"
    by (simp add: progress_nothing_saved round2_not_NaN)
  have r: "t \<le> 10 ^ 12 \<longrightarrow> computeRemaining (target ?g) (saved ?g) = target ?g"
  proof
    assume "t \<le> 10 ^ 12"
    then have "\<bar>t\<bar> \<le> 10 ^ 12" using assms(2) by simp
    then obtain N where N: "round2 (Fin t) = cents N" "N \<le> 10 ^ 14 + 4" "0 \<le> N"
      using round2_cents_form[of t] assms(2) by (metis less_eq_rat_def)
    have "computeRemaining (cents N) (cents 0) = cents (N - 0)"
      using N(2,3) by (intro remaining_cents) simp_all
    then show "computeRemaining (target ?g) (saved ?g) = target ?g"
      by (simp add: N(1) cents_0)
  qed
  show ?thesis using e p r by (intro exI[of _ ?g]) simp
qed

section \<open>Adding savings\<close>

text \<open>
  A goal of 10 with 5 saved has 5 remaining. The amount 5.00390625 is above that, and
  \<open>addSavings\<close> takes it: what it compares with the remaining amount is the rounded
  amount, 5, and \<open>saved\<close> becomes 10.
\<close>

theorem addSavings_amount_above_remaining_counterexample:
  "representable (1281 / 256)
   \<and> find (\<lambda>g. goal_id g = ''g_1'') (goals one_goal) = Some bike
   \<and> computeRemaining (target bike) (saved bike) = Fin 5
   \<and> js_gt (Fin (1281 / 256)) (computeRemaining (target bike) (saved bike))
   \<and> addSavings ''g_1'' (Fin (1281 / 256)) one_goal
       = (one_goal\<lparr>goals := [bike\<lparr>saved := Fin 10\<rparr>]\<rparr>, [Draw, Save])"
  by (simp add: representable_def fl_1281_256 addSavings_def computeRemaining_def one_goal_def
      bike_def render_def Math_max_def js_gt_def fl_5 fl_10 round2_5 round2_10 round2_5_256)

text \<open>
  C2, as the script has it. On a goal that exists, with \<open>amt = round2 amount\<close> positive and
  \<open>remaining = round2 (max 0 (target - saved))\<close>: when \<open>amt > remaining\<close> nothing is changed
  and the alert carries \<open>remaining\<close>; otherwise the first goal with the id gets
  \<open>saved = round2 (saved + amt)\<close>, no other goal and no preference changes, and the page is
  redrawn and saved.
\<close>

theorem addSavings_existing:
  assumes "find (\<lambda>g. goal_id g = i) (goals st) = Some g"
    and "js_gt (round2 amountToAdd) (Fin 0)"
  shows "(js_gt (round2 amountToAdd) (computeRemaining (target g) (saved g)) \<longrightarrow>
            addSavings i amountToAdd st
              = (st, [Alert (Only_add_up_to (computeRemaining (target g) (saved g)))]))
       \<and> (\<not> js_gt (round2 amountToAdd) (computeRemaining (target g) (saved g)) \<longrightarrow>
            snd (addSavings i amountToAdd st) = [Draw, Save]
            \<and> prefs (fst (addSavings i amountToAdd st)) = prefs st
            \<and> goals (fst (addSavings i amountToAdd st))
                = update_first (\<lambda>g. goal_id g = i)
                    (\<lambda>_. g\<lparr>saved := round2 (js_add (saved g) (round2 amountToAdd))\<rparr>) (goals st)
            \<and> find (\<lambda>g. goal_id g = i) (goals (fst (addSavings i amountToAdd st)))
                = Some (g\<lparr>saved := round2 (js_add (saved g) (round2 amountToAdd))\<rparr>))"
proof -
  let ?f = "\<lambda>g. g\<lparr>saved := round2 (js_add (saved g) (round2 amountToAdd))\<rparr>"
  have id: "goal_id g = i" using find_Some_P[OF assms(1)] .
  have u: "update_first (\<lambda>g. goal_id g = i) ?f (goals st)
      = update_first (\<lambda>g. goal_id g = i) (\<lambda>_. ?f g) (goals st)"
    using assms(1) by (rule update_first_const)
  have f: "find (\<lambda>g. goal_id g = i) (update_first (\<lambda>g. goal_id g = i) ?f (goals st)) = Some (?f g)"
    using assms(1) by (rule find_update_first) (simp add: id)
  show ?thesis
    using assms u f by (simp add: addSavings_def Let_def render_def)
qed

text \<open>On the goal of 10 with 5 saved: 7 is refused with the remaining 5, 3 is added.\<close>

theorem addSavings_existing_witness:
  "find (\<lambda>g. goal_id g = ''g_1'') (goals one_goal) = Some bike
   \<and> js_gt (round2 (Fin 7)) (Fin 0)
   \<and> js_gt (round2 (Fin 7)) (computeRemaining (target bike) (saved bike))
   \<and> addSavings ''g_1'' (Fin 7) one_goal = (one_goal, [Alert (Only_add_up_to (Fin 5))])
   \<and> js_gt (round2 (Fin 3)) (Fin 0)
   \<and> \<not> js_gt (round2 (Fin 3)) (computeRemaining (target bike) (saved bike))
   \<and> snd (addSavings ''g_1'' (Fin 3) one_goal) = [Draw, Save]
   \<and> find (\<lambda>g. goal_id g = ''g_1'') (goals (fst (addSavings ''g_1'' (Fin 3) one_goal)))
       = Some (bike\<lparr>saved := Fin 8\<rparr>)"
proof -
  have h: "find (\<lambda>g. goal_id g = ''g_1'') (goals one_goal) = Some bike"
    by (simp add: one_goal_def bike_def)
  have r: "computeRemaining (target bike) (saved bike) = Fin 5"
    by (simp add: computeRemaining_def bike_def Math_max_def fl_5 round2_5)
  have p7: "js_gt (round2 (Fin 7)) (Fin 0)" by (simp add: round2_7 js_gt_def)
  have p3: "js_gt (round2 (Fin 3)) (Fin 0)" by (simp add: round2_3 js_gt_def)
  have g7: "js_gt (round2 (Fin 7)) (computeRemaining (target bike) (saved bike))"
    by (simp add: r round2_7 js_gt_def)
  have n3: "\<not> js_gt (round2 (Fin 3)) (computeRemaining (target bike) (saved bike))"
    by (simp add: r round2_3 js_gt_def)
  have s: "round2 (js_add (saved bike) (round2 (Fin 3))) = Fin 8"
    by (simp add: bike_def round2_3 fl_8 round2_8)
  have "addSavings ''g_1'' (Fin 7) one_goal
      = (one_goal, [Alert (Only_add_up_to (computeRemaining (target bike) (saved bike)))])"
    using addSavings_existing[OF h p7] g7 by blast
  then have a7: "addSavings ''g_1'' (Fin 7) one_goal = (one_goal, [Alert (Only_add_up_to (Fin 5))])"
    by (simp only: r)
  have "snd (addSavings ''g_1'' (Fin 3) one_goal) = [Draw, Save]
      \<and> find (\<lambda>g. goal_id g = ''g_1'') (goals (fst (addSavings ''g_1'' (Fin 3) one_goal)))
          = Some (bike\<lparr>saved := round2 (js_add (saved bike) (round2 (Fin 3)))\<rparr>)"
    using addSavings_existing[OF h p3] n3 by blast
  then have a3: "snd (addSavings ''g_1'' (Fin 3) one_goal) = [Draw, Save]
      \<and> find (\<lambda>g. goal_id g = ''g_1'') (goals (fst (addSavings ''g_1'' (Fin 3) one_goal)))
          = Some (bike\<lparr>saved := Fin 8\<rparr>)"
    by (simp only: s)
  show ?thesis using h p7 g7 a7 p3 n3 a3 by blast
qed

text \<open>
  C10. \<open>addSavings\<close> rounds the amount, and when the rounded amount is not greater than 0
  (it is zero, negative or NaN) it returns with the state as it was and with no alert, no
  redraw and no write to the storage, whether a goal has the id or not.
\<close>

theorem addSavings_rounded_not_positive:
  assumes "\<not> js_gt (round2 amountToAdd) (Fin 0)"
  shows "addSavings i amountToAdd st = (st, [])"
  using assms by (simp add: addSavings_def Let_def split: option.split)

text \<open>The amounts 0.0009765625 (it rounds to 0), -3 and NaN on the goal of 10 with 5 saved.\<close>

theorem addSavings_rounded_not_positive_witness:
  "\<not> js_gt (round2 (Fin (1 / 1024))) (Fin 0)
   \<and> addSavings ''g_1'' (Fin (1 / 1024)) one_goal = (one_goal, [])
   \<and> \<not> js_gt (round2 (Fin (- 3))) (Fin 0)
   \<and> addSavings ''g_1'' (Fin (- 3)) one_goal = (one_goal, [])
   \<and> \<not> js_gt (round2 NaN) (Fin 0)
   \<and> addSavings ''g_1'' NaN one_goal = (one_goal, [])"
proof -
  have a: "\<not> js_gt (round2 (Fin (1 / 1024))) (Fin 0)"
    by (simp add: round2_1024th js_gt_def)
  have b: "\<not> js_gt (round2 NaN) (Fin 0)"
    by (simp add: round2_NaN js_gt_def)
  have c: "\<not> js_gt (round2 (Fin (- 3))) (Fin 0)"
    by (simp add: round2_neg_3 js_gt_def)
  show ?thesis
    using a b c addSavings_rounded_not_positive[OF a, of "''g_1''" one_goal]
      addSavings_rounded_not_positive[OF b, of "''g_1''" one_goal]
      addSavings_rounded_not_positive[OF c, of "''g_1''" one_goal]
    by blast
qed

text \<open>
  C1 on a store that starts empty. A goal is created through the form with the target 10;
  the prompt of its edit button is answered 35184372088832.016 (the double \<open>2\<^sup>4\<^sup>5 + 1/64\<close>),
  which makes its target the double of 35184372088832.02, and its card shows
  35184372088832.03 as the most that can be added. Adding that amount through the card's
  form is accepted, and \<open>saved\<close>, the double of 35184372088832.03, is then greater than
  \<open>target\<close>.
\<close>

theorem addSavings_past_target:
  "representable 10 \<and> representable (2251799813685249 / 64) \<and> representable (1125899906842625 / 32)
   \<and> foldl handle initial_state
        [Create ''g_1'' 1 ''Bike'' [] (Fin 10),
         Edit_target ''g_1'' (Some (Fin (2251799813685249 / 64))),
         Add_savings ''g_1'' (Fin (1125899906842625 / 32))]
       = \<lparr>goals = [\<lparr>goal_id = ''g_1'', name = ''Bike'', desc = [],
                      target = Fin (4503599627370499 / 128),
                      saved = Fin (1125899906842625 / 32), createdAt = 1\<rparr>],
           prefs = default_prefs\<rparr>
   \<and> js_gt (Fin (1125899906842625 / 32)) (Fin (4503599627370499 / 128))"
  by (simp add: representable_def fl_10 fl_big_a fl_big_c addGoalForm_submit_def addGoal_def
      safeNumber_def js_le_def js_gt_def trim_Bike trim_Nil initial_state_def render_def
      round2_10 round2_big_a computeRemaining_def addSavingsForm_submit_def addSavings_def
      editTarget_def fl_big_b Math_max_def round2_big_b round2_big_c)

text \<open>
  The three inputs pass the checks of the form, of the prompt and of the card, and the
  only goal of the store ends outside \<open>0 \<le> saved \<le> target\<close>.
\<close>

theorem addSavings_past_target_witness:
  "isFinite (safeNumber (Fin 10)) \<and> \<not> js_le (safeNumber (Fin 10)) (Fin 0)
   \<and> isFinite (safeNumber (Fin (2251799813685249 / 64)))
   \<and> \<not> js_le (safeNumber (Fin (2251799813685249 / 64))) (Fin 0)
   \<and> isFinite (safeNumber (Fin (1125899906842625 / 32)))
   \<and> \<not> js_le (safeNumber (Fin (1125899906842625 / 32))) (Fin 0)
   \<and> \<not> list_all within_target (goals (foldl handle initial_state
        [Create ''g_1'' 1 ''Bike'' [] (Fin 10),
         Edit_target ''g_1'' (Some (Fin (2251799813685249 / 64))),
         Add_savings ''g_1'' (Fin (1125899906842625 / 32))]))"
proof -
  have b: "isFinite (safeNumber (Fin 10))" "\<not> js_le (safeNumber (Fin 10)) (Fin 0)"
    "isFinite (safeNumber (Fin (2251799813685249 / 64)))"
    "\<not> js_le (safeNumber (Fin (2251799813685249 / 64))) (Fin 0)"
    "isFinite (safeNumber (Fin (1125899906842625 / 32)))"
    "\<not> js_le (safeNumber (Fin (1125899906842625 / 32))) (Fin 0)"
    by (simp_all add: safeNumber_def js_le_def)
  have "\<not> list_all within_target (goals (foldl handle initial_state
        [Create ''g_1'' 1 ''Bike'' [] (Fin 10),
         Edit_target ''g_1'' (Some (Fin (2251799813685249 / 64))),
         Add_savings ''g_1'' (Fin (1125899906842625 / 32))]))"
    using addSavings_past_target by (simp add: within_target_def js_le_def js_gt_def)
  then show ?thesis using b by blast
qed

text \<open>
  In a run from the empty store whose amounts are at most a trillion, every goal keeps
  \<open>0 \<le> saved \<le> target\<close> after every event.
\<close>

theorem saved_within_target_small:
  assumes "list_all small_event evs"
  shows "list_all within_target (goals (foldl handle initial_state evs))"
proof -
  have "list_all cents_goal (goals initial_state)" by (simp add: initial_state_def)
  then have "list_all cents_goal (goals (foldl handle initial_state evs))"
    using assms by (rule run_cents_goals)
  then show ?thesis by (simp add: list_all_iff cents_goal_within_target)
qed

section \<open>Editing the target\<close>

text \<open>
  On the goal of 10 with 5 saved the new target 0.0009765625 is finite and greater than 0
  and passes the check; it rounds to 0, so that \<open>target\<close> and \<open>saved\<close> both become 0 and the
  progress is 0, not 100.
\<close>

theorem editTarget_rounds_to_zero_counterexample:
  "representable (1 / 1024)
   \<and> find (\<lambda>g. goal_id g = ''g_1'') (goals one_goal) = Some bike
   \<and> isFinite (Fin (1 / 1024)) \<and> js_gt (Fin (1 / 1024)) (Fin 0)
   \<and> js_gt (saved bike) (round2 (Fin (1 / 1024)))
   \<and> fst (editTarget ''g_1'' (Some (Fin (1 / 1024))) one_goal)
       = one_goal\<lparr>goals := [bike\<lparr>target := Fin 0, saved := Fin 0\<rparr>]\<rparr>
   \<and> computeProgressPct (Fin 0) (Fin 0) = Fin 0
   \<and> computeProgressPct (Fin 0) (Fin 0) \<noteq> Fin 100"
  by (simp add: representable_def fl_1024th editTarget_def safeNumber_def one_goal_def bike_def
      render_def js_gt_def js_le_def round2_1024th computeProgressPct_def Let_def)

text \<open>
  C4, as the script has it. On a goal that exists, with a new target that is finite and
  greater than 0: the target becomes \<open>round2 newTarget\<close> and the page is redrawn and saved;
  when \<open>saved\<close> is greater than the new target it becomes the new target, and the progress
  is then 100 whenever the new target is greater than 0; otherwise \<open>saved\<close> is as it was.
\<close>

theorem editTarget_existing:
  assumes "find (\<lambda>g. goal_id g = i) (goals st) = Some g"
    and "isFinite newTarget" "js_gt newTarget (Fin 0)"
  shows "snd (editTarget i (Some newTarget) st) = [Draw, Save]
    \<and> (\<exists>g'. find (\<lambda>g. goal_id g = i) (goals (fst (editTarget i (Some newTarget) st))) = Some g'
          \<and> target g' = round2 newTarget
          \<and> (js_gt (saved g) (round2 newTarget) \<longrightarrow>
                saved g' = target g'
                \<and> (js_gt (round2 newTarget) (Fin 0) \<longrightarrow>
                     computeProgressPct (target g') (saved g') = Fin 100))
          \<and> (\<not> js_gt (saved g) (round2 newTarget) \<longrightarrow> saved g' = saved g))"
proof -
  let ?f = "\<lambda>g. let g1 = g\<lparr>target := round2 newTarget\<rparr>
                in if js_gt (saved g1) (target g1) then g1\<lparr>saved := target g1\<rparr> else g1"
  have id: "goal_id g = i" using find_Some_P[OF assms(1)] .
  have v: "\<not> js_le newTarget (Fin 0)"
    using assms(2,3) by (cases newTarget) (auto simp add: js_le_def js_gt_def)
  have e: "editTarget i (Some newTarget) st
      = (st\<lparr>goals := update_first (\<lambda>g. goal_id g = i) ?f (goals st)\<rparr>, [Draw, Save])"
    using assms(1,2) v by (simp add: editTarget_def safeNumber_def render_def)
  have f: "find (\<lambda>g. goal_id g = i) (update_first (\<lambda>g. goal_id g = i) ?f (goals st)) = Some (?f g)"
    using assms(1) by (rule find_update_first) (simp add: id Let_def)
  have p: "js_gt (saved g) (round2 newTarget) \<Longrightarrow> js_gt (round2 newTarget) (Fin 0) \<Longrightarrow>
      computeProgressPct (round2 newTarget) (round2 newTarget) = Fin 100"
    by (erule (1) js_gt_Fin_cases) (simp add: progress_full js_gt_def)
  show ?thesis
    unfolding e using f p by (auto simp add: Let_def)
qed

text \<open>On the goal of 10 with 5 saved, the new target 3: both become 3, the progress 100.\<close>

theorem editTarget_existing_witness:
  "find (\<lambda>g. goal_id g = ''g_1'') (goals one_goal) = Some bike
   \<and> isFinite (Fin 3) \<and> js_gt (Fin 3) (Fin 0)
   \<and> js_gt (saved bike) (round2 (Fin 3)) \<and> js_gt (round2 (Fin 3)) (Fin 0)
   \<and> snd (editTarget ''g_1'' (Some (Fin 3)) one_goal) = [Draw, Save]
   \<and> (\<exists>g'. find (\<lambda>g. goal_id g = ''g_1'') (goals (fst (editTarget ''g_1'' (Some (Fin 3)) one_goal))) = Some g'
         \<and> target g' = Fin 3 \<and> saved g' = Fin 3
         \<and> computeProgressPct (target g') (saved g') = Fin 100)"
proof -
  have h: "find (\<lambda>g. goal_id g = ''g_1'') (goals one_goal) = Some bike"
    by (simp add: one_goal_def bike_def)
  have a: "isFinite (Fin 3)" by simp
  have b: "js_gt (Fin 3) (Fin 0)" by (simp add: js_gt_def)
  have c: "js_gt (saved bike) (round2 (Fin 3))" by (simp add: bike_def round2_3 js_gt_def)
  show ?thesis
    using h a b c editTarget_existing[OF h a b] by (auto simp add: round2_3 js_gt_def)
qed

section \<open>An id that no goal has\<close>

text \<open>
  With no goal \<^verbatim>\<open>g_2\<close> in the store, \<open>addSavings\<close> and \<open>editTarget\<close> for that id return
  with the state as it was and without an alert or any other effect: nothing tells the
  caller that the id was not found.
\<close>

theorem unknown_id_counterexample:
  "find (\<lambda>g. goal_id g = ''g_2'') (goals one_goal) = None
   \<and> addSavings ''g_2'' (Fin 5) one_goal = (one_goal, [])
   \<and> editTarget ''g_2'' (Some (Fin 5)) one_goal = (one_goal, [])"
  by (simp add: addSavings_def editTarget_def one_goal_def bike_def)

text \<open>
  C3, as the script has it. For an id that no goal has, \<open>addSavings\<close> and \<open>editTarget\<close>
  return silently, with the state as it was and no effect; \<open>deleteGoal\<close> leaves the goals
  and the preferences as they were, and redraws and saves.
\<close>

theorem unknown_id:
  assumes "find (\<lambda>g. goal_id g = i) (goals st) = None"
  shows "addSavings i amountToAdd st = (st, [])
    \<and> editTarget i input st = (st, [])
    \<and> deleteGoal i st = (st, [Draw, Save])"
  using assms by (simp add: addSavings_def editTarget_def deleteGoal_def render_def filter_other_ids)

text \<open>The three actions for the id \<^verbatim>\<open>g_2\<close> on the store whose only goal is \<^verbatim>\<open>g_1\<close>.\<close>

theorem unknown_id_witness:
  "find (\<lambda>g. goal_id g = ''g_2'') (goals one_goal) = None
   \<and> addSavings ''g_2'' (Fin 3) one_goal = (one_goal, [])
   \<and> editTarget ''g_2'' (Some (Fin 20)) one_goal = (one_goal, [])
   \<and> deleteGoal ''g_2'' one_goal = (one_goal, [Draw, Save])"
proof -
  have h: "find (\<lambda>g. goal_id g = ''g_2'') (goals one_goal) = None"
    by (simp add: one_goal_def bike_def)
  show ?thesis using h unknown_id[OF h, of "Fin 3" "Some (Fin 20)"] by simp
qed

section \<open>The summary\<close>

text \<open>
  C8. For every list of goals the summary counts them, \<open>totalRequired\<close> and \<open>totalSaved\<close>
  are the sums of the targets and of the saved amounts (added from the left, starting at
  0, with the addition of the Numbers), and \<open>totalRemaining\<close> is
  \<open>Math.max(0, totalRequired - totalSaved)\<close>: the difference when
  \<open>totalSaved \<le> totalRequired\<close>, and 0 when \<open>totalRequired < totalSaved\<close>.
\<close>

theorem aggregate_totals:
  "totalGoals (aggregate gs) = length gs
   \<and> totalRequired (aggregate gs) = foldl js_add (Fin 0) (map target gs)
   \<and> totalSaved (aggregate gs) = foldl js_add (Fin 0) (map saved gs)
   \<and> totalRemaining (aggregate gs)
       = Math_max (Fin 0) (js_sub (totalRequired (aggregate gs)) (totalSaved (aggregate gs)))
   \<and> (js_le (totalSaved (aggregate gs)) (totalRequired (aggregate gs)) \<longrightarrow>
        totalRemaining (aggregate gs)
          = js_sub (totalRequired (aggregate gs)) (totalSaved (aggregate gs)))
   \<and> (js_lt (totalRequired (aggregate gs)) (totalSaved (aggregate gs)) \<longrightarrow>
        totalRemaining (aggregate gs) = Fin 0)"
proof -
  have a: "totalRequired (aggregate gs) = foldl js_add (Fin 0) (map target gs)"
    "totalSaved (aggregate gs) = foldl js_add (Fin 0) (map saved gs)"
    "totalGoals (aggregate gs) = length gs"
    by (simp_all add: aggregate_def Let_def foldl_map)
  have b: "totalRemaining (aggregate gs)
       = Math_max (Fin 0) (js_sub (totalRequired (aggregate gs)) (totalSaved (aggregate gs)))"
    by (simp add: aggregate_def Let_def)
  show ?thesis
    using a b Math_max_diff_ge Math_max_diff_lt by presburger
qed

text \<open>
  The goal of 10 with 5 saved has 5 remaining in the summary; the same goal with 20 saved,
  as a stored list can hold it, has 0.
\<close>

theorem aggregate_totals_witness:
  "js_le (totalSaved (aggregate [bike])) (totalRequired (aggregate [bike]))
   \<and> totalRequired (aggregate [bike]) = Fin 10 \<and> totalSaved (aggregate [bike]) = Fin 5
   \<and> totalRemaining (aggregate [bike]) = Fin 5
   \<and> js_lt (totalRequired (aggregate [bike\<lparr>saved := Fin 20\<rparr>]))
        (totalSaved (aggregate [bike\<lparr>saved := Fin 20\<rparr>]))
   \<and> totalRemaining (aggregate [bike\<lparr>saved := Fin 20\<rparr>]) = Fin 0"
proof -
  have a: "js_le (totalSaved (aggregate [bike])) (totalRequired (aggregate [bike]))"
    unfolding aggregate_bike by (simp add: js_le_def)
  have b: "js_lt (totalRequired (aggregate [bike\<lparr>saved := Fin 20\<rparr>]))
        (totalSaved (aggregate [bike\<lparr>saved := Fin 20\<rparr>]))"
    unfolding aggregate_bike_over by simp
  have "totalRemaining (aggregate [bike])
      = js_sub (totalRequired (aggregate [bike])) (totalSaved (aggregate [bike]))"
    using aggregate_totals[of "[bike]"] a by blast
  then have c: "totalRemaining (aggregate [bike]) = Fin 5"
    unfolding aggregate_bike by (simp add: fl_5)
  have d: "totalRemaining (aggregate [bike\<lparr>saved := Fin 20\<rparr>]) = Fin 0"
    using aggregate_totals[of "[bike\<lparr>saved := Fin 20\<rparr>]"] b by blast
  show ?thesis using a aggregate_bike c b d by blast
qed

section \<open>Resetting\<close>

text \<open>
  C9. After any run of events, so after any goals created through the form and any
  currency and theme toggles, \<open>resetAll\<close>, once the confirm is answered yes, leaves no goal (no card is drawn) and the
  preferences INR and dark, and it saves and redraws.
\<close>

theorem resetAll_clears:
  "resetAll True (foldl handle initial_state evs) = (initial_state, [Save, Draw, Save])
   \<and> goals (fst (resetAll True (foldl handle initial_state evs))) = []
   \<and> renderGrid (goals (fst (resetAll True (foldl handle initial_state evs)))) = []
   \<and> prefs (fst (resetAll True (foldl handle initial_state evs))) = \<lparr>currency = INR, theme = Dark\<rparr>"
  by (simp add: resetAll_def render_def initial_state_def renderGrid_def sorted_goals_def default_prefs_def)

section \<open>Loading\<close>

lemma for_each_ok: "(\<And>x. x \<in> set xs \<Longrightarrow> f x = Inr ()) \<Longrightarrow> for_each f xs = Inr ()"
  by (induction xs) simp_all

lemma for_each_throws: "x \<in> set xs \<Longrightarrow> f x = Inl TypeError \<Longrightarrow> for_each f xs = Inl TypeError"
proof (induction xs)
  case Nil
  then show ?case by simp
next
  case (Cons y ys)
  show ?case
  proof (cases "f y")
    case (Inl e)
    then show ?thesis by (cases e) simp
  next
    case (Inr u)
    then have "x \<noteq> y" using Cons.prems by auto
    then show ?thesis using Cons Inr by simp
  qed
qed

lemma is_str_converts: "is_str v \<Longrightarrow> to_primitive v = Inr ()"
  by (auto simp add: is_str_def to_primitive_def split: option.splits json.splits)

lemma is_num_converts: "is_num v \<Longrightarrow> to_primitive v = Inr ()"
  by (auto simp add: is_num_def to_primitive_def split: option.splits json.splits)

lemma goal_record_reads:
  assumes "is_goal_record g"
  shows "read_converted g ''target'' = Inr ()" "read_converted g ''saved'' = Inr ()"
    "read_converted g ''createdAt'' = Inr ()" "read_converted g ''id'' = Inr ()"
    "read_converted g ''name'' = Inr ()" "read_converted g ''desc'' = Inr ()"
proof -
  have "g \<noteq> JNull"
    using assms by (auto simp add: is_goal_record_def property_def is_str_def)
  then have r: "read_property g k = Inr (property g k)" for k
    by (cases g) (simp_all add: read_property_def)
  show "read_converted g ''target'' = Inr ()" "read_converted g ''saved'' = Inr ()"
    "read_converted g ''createdAt'' = Inr ()" "read_converted g ''id'' = Inr ()"
    "read_converted g ''name'' = Inr ()" "read_converted g ''desc'' = Inr ()"
    using assms
    by (simp_all add: read_converted_def r is_goal_record_def is_str_converts is_num_converts)
qed

lemma goal_records_render:
  assumes "list_all is_goal_record gs"
  shows "renderSummary_loaded gs = Inr ()" "renderGrid_loaded gs = Inr ()"
proof -
  have g: "is_goal_record x" if "x \<in> set gs" for x
    using assms that by (simp add: list_all_iff)
  have t: "for_each (\<lambda>g. read_converted g ''target'') gs = Inr ()"
    by (rule for_each_ok) (simp add: g goal_record_reads)
  have s: "for_each (\<lambda>g. read_converted g ''saved'') gs = Inr ()"
    by (rule for_each_ok) (simp add: g goal_record_reads)
  have c: "for_each (\<lambda>g. read_converted g ''createdAt'') gs = Inr ()"
    by (rule for_each_ok) (simp add: g goal_record_reads)
  have k: "for_each card_loaded gs = Inr ()"
    by (rule for_each_ok) (simp add: g goal_record_reads card_loaded_def)
  show "renderSummary_loaded gs = Inr ()"
    by (simp add: renderSummary_loaded_def t s)
  show "renderGrid_loaded gs = Inr ()"
    by (simp add: renderGrid_loaded_def c k)
qed

text \<open>
  Where startup does what is expected of it. From the empty list and the default
  preferences: when one of the two stored texts is not JSON, startup ends with no goal and
  the default preferences; when the goals text is absent, empty, no array, or an array of
  Goal records, \<open>render\<close> does not throw and the goals are none, or that array; the
  preferences are the defaults when their text is absent, empty or no object, and else
  are read field by field, USD for the currency \<^verbatim>\<open>"USD"\<close> and INR for anything else, light
  for the theme \<^verbatim>\<open>"light"\<close> and dark for anything else.
\<close>

theorem startup_defaults:
  "(parse_or parse raw (JArr []) = None \<or> parse_or parse pr JNull = None \<longrightarrow>
      init parse raw pr = Inr initial_loaded)
   \<and> (parse_or parse raw (JArr []) = Some g \<and> parse_or parse pr JNull = Some p
        \<and> list_all is_goal_record (elements g) \<longrightarrow>
        init parse raw pr
          = Inr \<lparr>loaded_goals = elements g,
                 loaded_prefs = (if truthy_object p then prefs_of p else default_prefs)\<rparr>)
   \<and> (raw = None \<or> raw = Some [] \<longrightarrow> parse_or parse raw (JArr []) = Some (JArr []))
   \<and> (pr = None \<or> pr = Some [] \<longrightarrow> parse_or parse pr JNull = Some JNull)
   \<and> \<not> truthy_object JNull
   \<and> (currency (prefs_of p) = USD \<longleftrightarrow> property p ''currency'' = Some (JStr ''USD''))
   \<and> (theme (prefs_of p) = Light \<longleftrightarrow> property p ''theme'' = Some (JStr ''light''))"
proof -
  have a: "parse_or parse raw (JArr []) = None \<or> parse_or parse pr JNull = None \<Longrightarrow>
      init parse raw pr = Inr initial_loaded"
    by (auto simp add: init_def render_loaded_def renderSummary_loaded_def
        renderGrid_loaded_def loadFromStorage_def load_try_def
        initial_loaded_def Let_def split: option.splits)
  have b: "init parse raw pr
          = Inr \<lparr>loaded_goals = elements g,
                 loaded_prefs = (if truthy_object p then prefs_of p else default_prefs)\<rparr>"
    if h: "parse_or parse raw (JArr []) = Some g" "parse_or parse pr JNull = Some p"
      "list_all is_goal_record (elements g)"
  proof -
    have l: "loadFromStorage parse raw pr initial_loaded
        = \<lparr>loaded_goals = elements g,
           loaded_prefs = (if truthy_object p then prefs_of p else default_prefs)\<rparr>"
      using h(1,2)
      by (cases g) (simp_all add: loadFromStorage_def load_try_def initial_loaded_def Let_def
          elements_def)
    show ?thesis
      by (simp add: init_def l render_loaded_def goal_records_render[OF h(3)])
  qed
  have c: "raw = None \<or> raw = Some [] \<longrightarrow> parse_or parse raw (JArr []) = Some (JArr [])"
    "pr = None \<or> pr = Some [] \<longrightarrow> parse_or parse pr JNull = Some JNull"
    by (auto simp add: parse_or_def)
  have d: "\<not> truthy_object JNull"
    "currency (prefs_of p) = USD \<longleftrightarrow> property p ''currency'' = Some (JStr ''USD'')"
    "theme (prefs_of p) = Light \<longleftrightarrow> property p ''theme'' = Some (JStr ''light'')"
    by (simp_all add: truthy_object_def prefs_of_def)
  show ?thesis using a b c d by blast
qed

text \<open>
  Startups that go through: nothing stored; a goals text that is not JSON; the goals text
  \<^verbatim>\<open>7\<close>, no array, with stored preferences; a stored goal.
\<close>

lemma startup_examples:
  \<open>init stored_texts None None = Inr initial_loaded
   \<and> init stored_texts (Some ''{'') None = Inr initial_loaded
   \<and> init stored_texts (Some ''7'') (Some ''{"currency":"USD","theme":"light"}'')
       = Inr \<lparr>loaded_goals = [], loaded_prefs = \<lparr>currency = USD, theme = Light\<rparr>\<rparr>
   \<and> init stored_texts
         (Some ''[{"id":"g_1","name":"Bike","desc":"","target":10,"saved":0,"createdAt":1}]'') None
       = Inr \<lparr>loaded_goals =
               [JObj [(''id'', JStr ''g_1''), (''name'', JStr ''Bike''), (''desc'', JStr []),
                  (''target'', JNum (Fin 10)), (''saved'', JNum (Fin 0)),
                  (''createdAt'', JNum (Fin 1))]],
              loaded_prefs = default_prefs\<rparr>\<close>
  by (simp add: stored_texts_def init_def render_loaded_def renderSummary_loaded_def
      renderGrid_loaded_def card_loaded_def read_converted_def read_property_def
      to_primitive_def loadFromStorage_def load_try_def
      parse_or_def initial_loaded_def property_def truthy_object_def prefs_of_def)

text \<open>
  A stored array with a \<^verbatim>\<open>null\<close> among its elements is loaded as it is, whatever the
  preferences text parses to, and startup ends in the TypeError of \<open>renderSummary\<close>.
\<close>

lemma startup_fails_on_null_element:
  assumes "parse_or parse raw (JArr []) = Some (JArr xs)" "parse_or parse pr JNull = Some p"
    "JNull \<in> set xs"
  shows "loaded_goals (loadFromStorage parse raw pr initial_loaded) = xs"
    and "init parse raw pr = Inl TypeError"
proof -
  show l: "loaded_goals (loadFromStorage parse raw pr initial_loaded) = xs"
    using assms(1,2)
    by (simp add: loadFromStorage_def load_try_def initial_loaded_def Let_def)
  have "read_converted JNull ''target'' = Inl TypeError"
    by (simp add: read_converted_def read_property_def)
  then have "for_each (\<lambda>g. read_converted g ''target'') xs = Inl TypeError"
    using assms(3) for_each_throws[of JNull xs "\<lambda>g. read_converted g ''target''"] by simp
  then show "init parse raw pr = Inl TypeError"
    by (simp add: init_def render_loaded_def renderSummary_loaded_def l)
qed

text \<open>
  C6 at the stored goals text \<^verbatim>\<open>[null]\<close>, with no stored preferences. The text is JSON
  and an array, though not one of Goal records, and \<open>loadFromStorage\<close> makes it the list
  of goals as it is: no default takes its place. \<open>render\<close> then reads \<^verbatim>\<open>g.target\<close> of the
  \<^verbatim>\<open>null\<close> element in \<open>renderSummary\<close>, and startup ends in a TypeError.
\<close>

theorem startup_fails_on_null_goal:
  \<open>stored_texts ''[null]'' = Some (JArr [JNull])
   \<and> \<not> list_all is_goal_record [JNull]
   \<and> loaded_goals (loadFromStorage stored_texts (Some ''[null]'') None initial_loaded) = [JNull]
   \<and> loaded_goals (loadFromStorage stored_texts (Some ''[null]'') None initial_loaded) \<noteq> []
   \<and> init stored_texts (Some ''[null]'') None = Inl TypeError\<close>
  by (simp add: stored_texts_def init_def render_loaded_def renderSummary_loaded_def
      read_converted_def read_property_def
      loadFromStorage_def load_try_def parse_or_def initial_loaded_def
      is_goal_record_def is_str_def is_num_def property_def truthy_object_def)

text \<open>
  The preferences are read field by field, by the two conditional expressions of
  \<open>loadFromStorage\<close>: stored with the currency USD and the theme blue they become USD and
  dark, the theme alone falling back, and startup goes through.
\<close>

lemma prefs_field_fallback:
  \<open>\<not> is_prefs_record (JObj [(''currency'', JStr ''USD''), (''theme'', JStr ''blue'')])
   \<and> init stored_texts None (Some ''{"currency":"USD","theme":"blue"}'')
       = Inr \<lparr>loaded_goals = [], loaded_prefs = \<lparr>currency = USD, theme = Dark\<rparr>\<rparr>\<close>
  by (simp add: stored_texts_def init_def render_loaded_def renderSummary_loaded_def
      renderGrid_loaded_def loadFromStorage_def load_try_def
      parse_or_def initial_loaded_def property_def is_prefs_record_def truthy_object_def
      prefs_of_def)

end
